theory Spec2Isabelle
  imports Main "HOL-Library.AList" "HOL-Library.Word"
begin

chapter \<open>The program\<close>

section \<open>Skim catalog: \<open>load_skim_info\<close> of \<open>activitysim/core/los.py\<close>\<close>

text \<open>
  Python dictionaries keep insertion order and overwrite in place; they are association
  lists here, written to with \<open>AList.update\<close> (replace the value where the key stands,
  append a new key at the end) and read with \<open>map_of\<close>. Every \<open>assert\<close> and
  \<open>raise\<close> of the source is a constructor of \<open>failure\<close>, named after the place.
\<close>

datatype failure =
    Missing_data_file string              \<comment> \<open>\<open>config.data_file_path\<close>: the file is not there\<close>
  | Shape_mismatch                        \<comment> \<open>AssertionError, los.py line 229\<close>
  | Duplicate_skim string string          \<comment> \<open>AssertionError "duplicate skim ...", line 232: name, first file\<close>
  | Shape_index_error                     \<comment> \<open>IndexError of \<open>omx_shape[0]\<close> on an empty shape, line 240\<close>
  | Offset_map_length                     \<comment> \<open>AssertionError, line 240\<close>
  | Multiple_different_mappings string string  \<comment> \<open>RuntimeError, line 246\<close>
  | Block_offset_key_error                \<comment> \<open>KeyError or None in lines 295 to 297\<close>
  | Reduce_type_error                     \<comment> \<open>TypeError of \<open>reduce(mul, ...)\<close>, line 37\<close>
  | Unrecognized_dtype                    \<comment> \<open>RuntimeError, line 60\<close>
  | Settings_not_found                    \<comment> \<open>AssertionError, line 379\<close>
  | Unrecognized_zone_system "int option" \<comment> \<open>AssertionError "unrecognized zone_system", line 382\<close>
  | Skims_not_found                       \<comment> \<open>AssertionError, line 386\<close>
  | Skim_tag_already_loaded string        \<comment> \<open>AssertionError, line 451\<close>
  | Taz_not_in_skim_info                  \<comment> \<open>AssertionError, line 393\<close>
  | Table_not_listed string               \<comment> \<open>AssertionError, line 402\<close>
  | File_names_not_found string           \<comment> \<open>AssertionError, line 414 and 422\<close>
  | Path_type_error                       \<comment> \<open>TypeError: a list where line 415 needs one file name\<close>
  | Missing_csv_file string               \<comment> \<open>\<open>config.data_file_path(..., mandatory=True)\<close>\<close>
  | Duplicate_index                       \<comment> \<open>ValueError of \<open>set_index(verify_integrity=True)\<close>, line 429\<close>
  | Cardinality_is_None                   \<comment> \<open>TypeError of line 494 before the tables are loaded\<close>
  | Broadcast_error                       \<comment> \<open>ValueError of line 494: shapes that do not broadcast\<close>
  | Table_is_None                         \<comment> \<open>\<open>quick_loc_df\<close> on \<open>None\<close>\<close>
  | Column_not_found string               \<comment> \<open>KeyError: no column of that name\<close>
  | Label_not_found                       \<comment> \<open>KeyError of \<open>df.loc\<close>: no row of that label\<close>

datatype np_dtype = Float32 | Float64 | Int32 | Int64

text \<open>
  What an open OMX file answers: \<open>shape()\<close> (after the \<open>int\<close> conversion of line 227),
  \<open>listMatrices()\<close> with the element type of each matrix, and \<open>listMappings()\<close> with
  the \<open>mapentries\<close> of each mapping.
\<close>

record omx_file =
  shape :: "nat list"
  listMatrices :: "(string \<times> np_dtype) list"
  listMappings :: "(string \<times> int list) list"

text \<open>The data directory: \<open>omx.open_file(config.data_file_path(name))\<close>.\<close>

type_synonym data_dir = "string \<Rightarrow> omx_file option"

text \<open>A skim key is a plain string or a pair \<open>(key1, key2)\<close> (a Python tuple).\<close>

datatype skim_key = Key string | Key2 string string

record skim_info =
  skim_tag :: string
  omx_file_names :: "string list"
  omx_manifest :: "(string \<times> string) list"
  omx_shape :: "nat list option"
  num_skims :: nat
  dtype :: np_dtype
  offset_map_name :: "string option"
  offset_map :: "int list option"
  omx_keys :: "(skim_key \<times> string) list"
  key1_block_offsets :: "(string \<times> nat) list"
  block_offsets :: "(skim_key \<times> nat) list"

text \<open>
  \<open>str.partition(sep)\<close> for a non-empty separator: the part before the first occurrence
  of \<open>sep\<close>, the separator, the part after it; the whole string and two empty strings
  when \<open>sep\<close> does not occur.
\<close>

fun str_partition :: "string \<Rightarrow> string \<Rightarrow> string \<times> string \<times> string" where
  "str_partition sep [] = ([], [], [])"
| "str_partition sep (c # cs) =
     (if take (length sep) (c # cs) = sep then ([], sep, drop (length sep) (c # cs))
      else (case str_partition sep cs of (a, s, b) \<Rightarrow> (c # a, s, b)))"

text \<open>Line 226 to 229: the first file fixes the shape, every later one must repeat it.\<close>

fun check_shape :: "nat list option \<Rightarrow> nat list \<Rightarrow> failure + nat list" where
  "check_shape None s = Inr s"
| "check_shape (Some s0) s = (if s0 = s then Inr s0 else Inl Shape_mismatch)"

text \<open>Line 231 to 234: the manifest maps each matrix name to the file it came from.\<close>

fun add_matrices ::
  "string \<Rightarrow> string list \<Rightarrow> (string \<times> string) list \<Rightarrow> failure + (string \<times> string) list" where
  "add_matrices omx_file_name [] manifest = Inr manifest"
| "add_matrices omx_file_name (skim_name # rest) manifest =
     (case map_of manifest skim_name of
        Some first_file \<Rightarrow> Inl (Duplicate_skim skim_name first_file)
      | None \<Rightarrow> add_matrices omx_file_name rest (AList.update skim_name omx_file_name manifest))"

text \<open>
  Line 236 to 246: the first mapping met is adopted and must be as long as the first
  dimension; a later one must have the same entries. The adopted mapping is kept with
  its name (\<open>offset_map_name\<close>, \<open>offset_map\<close>).
\<close>

fun scan_mappings ::
  "nat list \<Rightarrow> (string \<times> int list) list \<Rightarrow> (string \<times> int list) option
    \<Rightarrow> failure + (string \<times> int list) option" where
  "scan_mappings sh [] om = Inr om"
| "scan_mappings sh ((m, entries) # ms) None =
     (case sh of
        [] \<Rightarrow> Inl Shape_index_error
      | r # _ \<Rightarrow> if length entries = r then scan_mappings sh ms (Some (m, entries))
                 else Inl Offset_map_length)"
| "scan_mappings sh ((m, entries) # ms) (Some (m0, e0)) =
     (if e0 = entries then scan_mappings sh ms (Some (m0, e0))
      else Inl (Multiple_different_mappings m0 m))"

text \<open>The loop over the files, line 216 to 246, on (shape, adopted mapping, manifest).\<close>

type_synonym scan_state =
  "nat list option \<times> (string \<times> int list) option \<times> (string \<times> string) list"

fun read_omx_files :: "data_dir \<Rightarrow> string list \<Rightarrow> scan_state \<Rightarrow> failure + scan_state" where
  "read_omx_files dir [] st = Inr st"
| "read_omx_files dir (omx_file_name # rest) (sh, om, manifest) =
     (case dir omx_file_name of
        None \<Rightarrow> Inl (Missing_data_file omx_file_name)
      | Some f \<Rightarrow>
         (case check_shape sh (shape f) of
            Inl e \<Rightarrow> Inl e
          | Inr sh' \<Rightarrow>
             (case add_matrices omx_file_name (map fst (listMatrices f)) manifest of
                Inl e \<Rightarrow> Inl e
              | Inr manifest' \<Rightarrow>
                 (case scan_mappings sh' (listMappings f) om of
                    Inl e \<Rightarrow> Inl e
                  | Inr om' \<Rightarrow> read_omx_files dir rest (Some sh', om', manifest')))))"

text \<open>
  Line 206: \<open>tags_to_load = skim_time_periods and skim_time_periods['labels']\<close>. The
  setting is \<open>None\<close> when absent and \<open>Some labels\<close> for a settings dictionary whose
  \<open>labels\<close> entry is the list \<open>labels\<close>. Line 256 tests \<open>tags_to_load\<close> for truth:
  \<open>None\<close> and the empty list are both false.
\<close>

fun tags_to_load :: "string list option \<Rightarrow> string list" where
  "tags_to_load None = []"
| "tags_to_load (Some labels) = labels"

text \<open>Line 251 to 260.\<close>

fun build_omx_keys ::
  "string list \<Rightarrow> string list \<Rightarrow> (skim_key \<times> string) list \<Rightarrow> (skim_key \<times> string) list" where
  "build_omx_keys tags [] keys = keys"
| "build_omx_keys tags (skim_name # rest) keys =
     (case str_partition ''__'' skim_name of
        (key1, sep, key2) \<Rightarrow>
          if tags \<noteq> [] \<and> sep \<noteq> [] \<and> key2 \<notin> set tags then build_omx_keys tags rest keys
          else build_omx_keys tags rest
                 (AList.update (if sep \<noteq> [] then Key2 key1 key2 else Key key1) skim_name keys))"

text \<open>Line 269 to 272 and 290 to 293: a plain key stands for \<open>key1 = key2 = skim_key\<close>.\<close>

fun key_parts :: "skim_key \<Rightarrow> string \<times> string" where
  "key_parts (Key2 key1 key2) = (key1, key2)"
| "key_parts (Key k) = (k, k)"

text \<open>Line 267 to 274: \<open>setdefault\<close>, then \<open>key2_dict[key2] = len(key2_dict)\<close>.\<close>

fun build_key1_subkeys ::
  "skim_key list \<Rightarrow> (string \<times> (string \<times> nat) list) list \<Rightarrow> (string \<times> (string \<times> nat) list) list" where
  "build_key1_subkeys [] subkeys = subkeys"
| "build_key1_subkeys (k # rest) subkeys =
     (case key_parts k of
        (key1, key2) \<Rightarrow>
          let key2_dict = (case map_of subkeys key1 of None \<Rightarrow> [] | Some d \<Rightarrow> d)
          in build_key1_subkeys rest
               (AList.update key1 (AList.update key2 (length key2_dict) key2_dict) subkeys))"

text \<open>Line 276 to 281.\<close>

fun build_key1_block_offsets ::
  "(string \<times> (string \<times> nat) list) list \<Rightarrow> nat \<Rightarrow> (string \<times> nat) list \<Rightarrow> (string \<times> nat) list" where
  "build_key1_block_offsets [] offset offsets = offsets"
| "build_key1_block_offsets ((key1, v) # rest) offset offsets =
     build_key1_block_offsets rest (offset + length v) (AList.update key1 offset offsets)"

text \<open>Line 287 to 297.\<close>

fun build_block_offsets ::
  "(string \<times> (string \<times> nat) list) list \<Rightarrow> (string \<times> nat) list \<Rightarrow> skim_key list
    \<Rightarrow> (skim_key \<times> nat) list \<Rightarrow> failure + (skim_key \<times> nat) list" where
  "build_block_offsets subkeys k1offs [] offs = Inr offs"
| "build_block_offsets subkeys k1offs (k # rest) offs =
     (case key_parts k of
        (key1, key2) \<Rightarrow>
          (case map_of k1offs key1 of
             None \<Rightarrow> Inl Block_offset_key_error
           | Some key1_offset \<Rightarrow>
              (case map_of subkeys key1 of
                 None \<Rightarrow> Inl Block_offset_key_error
               | Some d \<Rightarrow>
                  (case map_of d key2 of
                     None \<Rightarrow> Inl Block_offset_key_error
                   | Some key2_relative_offset \<Rightarrow>
                       build_block_offsets subkeys k1offs rest
                         (AList.update k (key1_offset + key2_relative_offset) offs)))))"

text \<open>Line 248 to 316: the catalog from the state the loop over the files leaves.\<close>

definition make_skim_info ::
  "string \<Rightarrow> string list \<Rightarrow> string list option \<Rightarrow> scan_state \<Rightarrow> failure + skim_info" where
  "make_skim_info tag names skim_time_periods st =
     (case st of
        (sh, om, manifest) \<Rightarrow>
          let keys = build_omx_keys (tags_to_load skim_time_periods) (map fst manifest) [];
              subkeys = build_key1_subkeys (map fst keys) [];
              k1offs = build_key1_block_offsets subkeys 0 []
          in (case build_block_offsets subkeys k1offs (map fst keys) [] of
                Inl e \<Rightarrow> Inl e
              | Inr offs \<Rightarrow>
                  Inr \<lparr> skim_tag = tag, omx_file_names = names, omx_manifest = manifest,
                        omx_shape = sh, num_skims = length keys, dtype = Float32,
                        offset_map_name = map_option fst om, offset_map = map_option snd om,
                        omx_keys = keys, key1_block_offsets = k1offs, block_offsets = offs \<rparr>))"

definition load_skim_info ::
  "data_dir \<Rightarrow> string \<Rightarrow> string list \<Rightarrow> string list option \<Rightarrow> failure + skim_info" where
  "load_skim_info dir tag names skim_time_periods =
     (case read_omx_files dir names (None, None, []) of
        Inl e \<Rightarrow> Inl e
      | Inr st \<Rightarrow> make_skim_info tag names skim_time_periods st)"

section \<open>Buffer allocation: \<open>allocate_skim_buffer\<close>\<close>

fun itemsize :: "np_dtype \<Rightarrow> nat" where
  "itemsize Float32 = 4"
| "itemsize Float64 = 8"
| "itemsize Int32 = 4"
| "itemsize Int64 = 8"

text \<open>\<open>np.issubdtype\<close> between two of these scalar types: none is a subtype of another.\<close>

definition issubdtype :: "np_dtype \<Rightarrow> np_dtype \<Rightarrow> bool" where
  "issubdtype a b = (a = b)"

text \<open>
  \<open>reduce(mul, list_of_numbers)\<close>: a TypeError on an empty sequence, and on \<open>None\<close>
  (the shape of a catalog no file contributed to).
\<close>

fun multiply_large_numbers :: "nat list option \<Rightarrow> failure + nat" where
  "multiply_large_numbers None = Inl Reduce_type_error"
| "multiply_large_numbers (Some []) = Inl Reduce_type_error"
| "multiply_large_numbers (Some (n # ns)) = Inr (foldl (*) n ns)"

text \<open>A shared \<open>multiprocessing.RawArray(typecode, size)\<close> or \<open>np.zeros(size, dtype)\<close>.\<close>

datatype skim_buffer = RawArray char nat | Zeros np_dtype nat

definition allocate_skim_buffer :: "skim_info \<Rightarrow> bool \<Rightarrow> failure + skim_buffer" where
  "allocate_skim_buffer info shared =
     (case multiply_large_numbers (omx_shape info) of
        Inl e \<Rightarrow> Inl e
      | Inr n \<Rightarrow>
          let buffer_size = n * num_skims info in
          if shared then
            if issubdtype (dtype info) Float64 then Inr (RawArray (CHR ''d'') buffer_size)
            else if issubdtype (dtype info) Float32 then Inr (RawArray (CHR ''f'') buffer_size)
            else Inl Unrecognized_dtype
          else Inr (Zeros (dtype info) buffer_size))"

section \<open>The skim cache: \<open>write_skim_cache\<close> and \<open>read_skim_cache\<close>\<close>

text \<open>
  An array is its shape, its element type and its elements as the bytes they are in
  memory, in C order. The environment holds the \<open>skim_cache_dir\<close> setting, the
  \<open>output_dir\<close> injectable, and the regular files by path, each with its bytes. The
  cache directory is taken to exist and to be writable. Two things are numpy's and are
  left open as parts of the environment: whether a map of no bytes can be made
  (\<open>mmap_empty\<close>; older releases raise a ValueError), and the conversion between two
  different element types (\<open>astype\<close>); an assignment between arrays of one element
  type copies the bytes.
\<close>

datatype cache_failure =
    Cache_not_found string
  | Mmap_empty_file
  | Mmap_longer_than_file

type_synonym byte = "8 word"

record ndarray =
  nd_shape :: "nat list"
  nd_dtype :: np_dtype
  nd_bytes :: "byte list"

definition nbytes :: "nat list \<Rightarrow> np_dtype \<Rightarrow> nat" where
  "nbytes sh dt = prod_list sh * itemsize dt"

record cache_env =
  setting_skim_cache_dir :: "string option"
  output_dir :: string
  files :: "string \<Rightarrow> byte list option"
  mmap_empty :: bool
  astype :: "np_dtype \<Rightarrow> np_dtype \<Rightarrow> byte list \<Rightarrow> byte list"

text \<open>Line 83 to 88, and \<open>os.path.join\<close> as the paths of line 103 and 128 use it.\<close>

definition default_skim_cache_dir :: "cache_env \<Rightarrow> string" where
  "default_skim_cache_dir env = output_dir env"

definition build_skim_cache_file_name :: "string \<Rightarrow> string" where
  "build_skim_cache_file_name tag = ''cached_'' @ tag @ ''.mmap''"

definition path_join :: "string \<Rightarrow> string \<Rightarrow> string" where
  "path_join a b =
     (if b \<noteq> [] \<and> hd b = CHR ''/'' then b
      else if a = [] \<or> last a = CHR ''/'' then a @ b
      else a @ ''/'' @ b)"

definition skim_cache_path :: "cache_env \<Rightarrow> skim_info \<Rightarrow> string" where
  "skim_cache_path env info =
     (let skim_cache_dir =
            (case setting_skim_cache_dir env of None \<Rightarrow> default_skim_cache_dir env | Some d \<Rightarrow> d)
      in path_join skim_cache_dir (build_skim_cache_file_name (skim_tag info)))"

text \<open>\<open>dst[::] = src\<close> for arrays of one shape: the bytes dst holds afterwards.\<close>

definition assign :: "cache_env \<Rightarrow> np_dtype \<Rightarrow> ndarray \<Rightarrow> byte list" where
  "assign env dst_dtype src =
     (if nd_dtype src = dst_dtype then nd_bytes src
      else astype env (nd_dtype src) dst_dtype (nd_bytes src))"

text \<open>
  Line 116 to 133. \<open>np.memmap(path, shape, dtype, mode='w+')\<close> creates the file, or
  empties it, at the size of the array; the assignment fills it.
\<close>

definition write_skim_cache :: "cache_env \<Rightarrow> skim_info \<Rightarrow> ndarray \<Rightarrow> cache_failure + cache_env" where
  "write_skim_cache env info skim_data =
     (let skim_cache_path = skim_cache_path env info;
          n = nbytes (nd_shape skim_data) (dtype info)
      in if n = 0 \<and> \<not> mmap_empty env then Inl Mmap_empty_file
         else Inr (env\<lparr>files := (files env)(skim_cache_path \<mapsto> assign env (dtype info) skim_data)\<rparr>))"

text \<open>
  Line 91 to 113. The file must be there (line 105), and \<open>np.memmap\<close> with
  \<open>mode='r'\<close> maps its first bytes, as many as the array has, and fails on a shorter
  file.
\<close>

definition read_skim_cache :: "cache_env \<Rightarrow> skim_info \<Rightarrow> ndarray \<Rightarrow> cache_failure + ndarray" where
  "read_skim_cache env info skim_data =
     (let skim_cache_path = skim_cache_path env info in
      case files env skim_cache_path of
        None \<Rightarrow> Inl (Cache_not_found skim_cache_path)
      | Some content \<Rightarrow>
          let n = nbytes (nd_shape skim_data) (dtype info) in
          if length content < n then Inl Mmap_longer_than_file
          else if length content = 0 \<and> \<not> mmap_empty env then Inl Mmap_empty_file
          else
            let data = \<lparr> nd_shape = nd_shape skim_data, nd_dtype = dtype info,
                         nd_bytes = take n content \<rparr>
            in Inr (skim_data\<lparr>nd_bytes := assign env (nd_dtype skim_data) data\<rparr>))"

section \<open>The settings and \<open>Network_LOS.read_los_settings\<close>\<close>

definition ONE_ZONE :: int where "ONE_ZONE = 1"

definition TWO_ZONE :: int where "TWO_ZONE = 2"

definition THREE_ZONE :: int where "THREE_ZONE = 3"

definition REQUIRED_TWO_ZONE_TABLES :: "string list" where
  "REQUIRED_TWO_ZONE_TABLES = [''maz_to_maz'', ''maz_to_taz'']"

text \<open>A settings entry that is one file name or a list of them (line 389 and 423).\<close>

datatype file_names = One_name string | Names "string list"

fun as_list :: "file_names \<Rightarrow> string list" where
  "as_list (One_name file_name) = [file_name]"
| "as_list (Names names) = names"

text \<open>
  The \<open>network_los\<close> settings: what \<open>los_settings.get\<close> answers for \<open>zone_system\<close>,
  \<open>skims\<close> and \<open>tables\<close> (\<open>None\<close> for a key that is not there).
\<close>

record los_settings =
  get_zone_system :: "int option"
  get_skims :: "(string \<times> file_names) list option"
  get_tables :: "(string \<times> file_names) list option"

text \<open>
  Integer columns of a table are 64 bits wide, as pandas reads them; arithmetic on them
  wraps. A number computed from them is such an integer, or the float NaN where the
  maximum of an empty column enters: \<open>nan + 1\<close> and \<open>x * nan\<close> are NaN. As a row
  label pandas takes NaN to be equal to itself.
\<close>

type_synonym i64 = "64 word"

datatype number = I64 i64 | NaN

fun number_add :: "number \<Rightarrow> i64 \<Rightarrow> number" where
  "number_add (I64 a) b = I64 (a + b)"
| "number_add NaN b = NaN"

fun number_mul :: "i64 \<Rightarrow> number \<Rightarrow> number" where
  "number_mul a (I64 b) = I64 (a * b)"
| "number_mul a NaN = NaN"

text \<open>
  The \<open>maz_to_taz\<close> table as \<open>pd.read_csv\<close> gives it: only its \<open>MAZ\<close> column is read.
  A \<open>maz_to_maz\<close> table: the columns \<open>OMAZ\<close> and \<open>DMAZ\<close>, and every other column by
  name with its values, one per row. (\<open>pd.read_csv\<close> gives every column a name, none
  empty, and renames a repeated one; two files may well have a column name in common.)
\<close>

record maz_to_taz_csv =
  MAZ :: "i64 list"

record 'v maz_to_maz_csv =
  OMAZ :: "i64 list"
  DMAZ :: "i64 list"
  attribute_columns :: "(string \<times> 'v list) list"

text \<open>
  A data frame indexed by the synthetic index: its row labels, and each column by name
  as the cells it holds by row label; a label without a cell in a column is a NaN.
\<close>

record 'v dataframe =
  index :: "number list"
  columns :: "(string \<times> (number \<times> 'v) list) list"

text \<open>What the configuration and the data directory answer.\<close>

record 'v config =
  setting_network_los :: "los_settings option"
  setting_skim_time_periods :: "string list option"
  omx_files :: data_dir
  read_csv_maz_to_taz :: "string \<Rightarrow> maz_to_taz_csv option"
  read_csv_maz_to_maz :: "string \<Rightarrow> 'v maz_to_maz_csv option"

record 'v Network_LOS =
  zone_system :: "int option"
  skim_time_periods :: "string list option"
  skim_info :: "(string \<times> skim_info) list"
  table_info :: "(string \<times> file_names) list"
  maz_to_taz_df :: "maz_to_taz_csv option"
  maz_to_maz_df :: "'v dataframe option"
  maz_to_maz_cardinality :: "number option"

text \<open>Line 387 to 390, with \<open>Network_LOS.load_skim_info\<close> of line 445 to 452.\<close>

fun load_skim_infos ::
  "'v config \<Rightarrow> (string \<times> file_names) list \<Rightarrow> 'v Network_LOS \<Rightarrow> failure + 'v Network_LOS" where
  "load_skim_infos cfg [] self = Inr self"
| "load_skim_infos cfg ((tag, names) # rest) self =
     (case map_of (skim_info self) tag of
        Some _ \<Rightarrow> Inl (Skim_tag_already_loaded tag)
      | None \<Rightarrow>
         (case load_skim_info (omx_files cfg) tag (as_list names) (skim_time_periods self) of
            Inl e \<Rightarrow> Inl e
          | Inr info \<Rightarrow>
              load_skim_infos cfg rest
                (self\<lparr>skim_info := AList.update tag info (skim_info self)\<rparr>)))"

text \<open>Line 396 to 403.\<close>

fun check_required_tables :: "string list \<Rightarrow> (string \<times> file_names) list \<Rightarrow> failure + unit" where
  "check_required_tables [] info = Inr ()"
| "check_required_tables (table_name # rest) info =
     (case map_of info table_name of
        None \<Rightarrow> Inl (Table_not_listed table_name)
      | Some _ \<Rightarrow> check_required_tables rest info)"

definition read_los_settings :: "'v config \<Rightarrow> 'v Network_LOS \<Rightarrow> failure + 'v Network_LOS" where
  "read_los_settings cfg self =
     (case setting_network_los cfg of
        None \<Rightarrow> Inl Settings_not_found
      | Some los \<Rightarrow>
          let self1 = self\<lparr>zone_system := get_zone_system los\<rparr> in
          if zone_system self1 \<notin> set [Some ONE_ZONE, Some TWO_ZONE]
          then Inl (Unrecognized_zone_system (zone_system self1))
          else
            (case get_skims los of
               None \<Rightarrow> Inl Skims_not_found
             | Some skim_file_names \<Rightarrow>
                (case load_skim_infos cfg skim_file_names self1 of
                   Inl e \<Rightarrow> Inl e
                 | Inr self2 \<Rightarrow>
                    if map_of (skim_info self2) ''taz'' = None then Inl Taz_not_in_skim_info
                    else if zone_system self2 \<in> set [Some TWO_ZONE, Some THREE_ZONE] then
                      let self3 = self2\<lparr>table_info :=
                                    (case get_tables los of None \<Rightarrow> [] | Some t \<Rightarrow> t)\<rparr> in
                      (case check_required_tables REQUIRED_TWO_ZONE_TABLES (table_info self3) of
                         Inl e \<Rightarrow> Inl e
                       | Inr _ \<Rightarrow>
                           Inr (self3\<lparr>skim_time_periods := setting_skim_time_periods cfg\<rparr>))
                    else Inr (self2\<lparr>skim_time_periods := setting_skim_time_periods cfg\<rparr>))))"

text \<open>\<open>Network_LOS.__init__\<close>, line 358 to 374.\<close>

definition new_Network_LOS :: "'v config \<Rightarrow> failure + 'v Network_LOS" where
  "new_Network_LOS cfg =
     read_los_settings cfg
       \<lparr> zone_system = None, skim_time_periods = setting_skim_time_periods cfg,
         skim_info = [], table_info = [], maz_to_taz_df = None, maz_to_maz_df = None,
         maz_to_maz_cardinality = None \<rparr>"

section \<open>The zone pair tables: \<open>load_all_tables\<close> and \<open>get_mazpairs\<close>\<close>

text \<open>\<open>MAZ.max()\<close>: the greatest value of a column of signed integers; NaN when it is empty.\<close>

definition smax :: "i64 \<Rightarrow> i64 \<Rightarrow> i64" where
  "smax a b = (if word_sle a b then b else a)"

fun column_max :: "i64 list \<Rightarrow> number" where
  "column_max [] = NaN"
| "column_max (x # xs) = I64 (foldl smax x xs)"

text \<open>
  Line 428: \<open>df['i'] = df.OMAZ * self.maz_to_maz_cardinality + df.DMAZ\<close>, row by row.
  The assignment replaces a column \<open>i\<close> that the file may have brought.
\<close>

definition synthetic_index :: "number \<Rightarrow> 'v maz_to_maz_csv \<Rightarrow> number list" where
  "synthetic_index cardinality df =
     map2 (\<lambda>omaz dmaz. number_add (number_mul omaz cardinality) dmaz) (OMAZ df) (DMAZ df)"

text \<open>
  Line 429 to 434: \<open>set_index('i', drop=True, verify_integrity=True)\<close> makes the column
  \<open>i\<close> the row labels, which must be free of duplicates, and takes it out of the columns;
  \<open>drop(columns=['OMAZ', 'DMAZ'])\<close> takes those two out. What is left of the file are
  its columns of other names, their cells by row label.
\<close>

definition index_maz_to_maz :: "number \<Rightarrow> 'v maz_to_maz_csv \<Rightarrow> failure + 'v dataframe" where
  "index_maz_to_maz cardinality df =
     (let i = synthetic_index cardinality df in
      if \<not> distinct i then Inl Duplicate_index
      else Inr \<lparr> index = i,
                 columns = map (\<lambda>c. (fst c, zip i (snd c)))
                             (filter (\<lambda>c. fst c \<notin> set [''i'', ''OMAZ'', ''DMAZ''])
                                (attribute_columns df)) \<rparr>)"

text \<open>
  \<open>pd.concat([a, b], axis=1)\<close>: the rows are the union of the labels (here in the
  order first seen; pandas may sort them, which no lookup by label notices), the columns
  those of \<open>a\<close> followed by those of \<open>b\<close>.
\<close>

definition concat_columns :: "'v dataframe \<Rightarrow> 'v dataframe \<Rightarrow> 'v dataframe" where
  "concat_columns a b =
     \<lparr> index = index a @ filter (\<lambda>i. i \<notin> set (index a)) (index b),
       columns = columns a @ columns b \<rparr>"

text \<open>Line 424 to 439.\<close>

fun load_maz_to_maz ::
  "'v config \<Rightarrow> number \<Rightarrow> string list \<Rightarrow> 'v dataframe option \<Rightarrow> failure + 'v dataframe option" where
  "load_maz_to_maz cfg cardinality [] maz_to_maz = Inr maz_to_maz"
| "load_maz_to_maz cfg cardinality (file_name # rest) maz_to_maz =
     (case read_csv_maz_to_maz cfg file_name of
        None \<Rightarrow> Inl (Missing_csv_file file_name)
      | Some csv \<Rightarrow>
         (case index_maz_to_maz cardinality csv of
            Inl e \<Rightarrow> Inl e
          | Inr df \<Rightarrow>
              load_maz_to_maz cfg cardinality rest
                (Some (case maz_to_maz of None \<Rightarrow> df | Some t \<Rightarrow> concat_columns t df))))"

text \<open>
  Line 408 to 443. When the \<open>MAZ\<close> column is empty its maximum is NaN and no
  exception is raised: the cardinality is NaN, and so is every row label.
\<close>

definition load_all_tables :: "'v config \<Rightarrow> 'v Network_LOS \<Rightarrow> failure + 'v Network_LOS" where
  "load_all_tables cfg self =
     (if zone_system self \<in> set [Some TWO_ZONE, Some THREE_ZONE] then
        (case map_of (table_info self) ''maz_to_taz'' of
           None \<Rightarrow> Inl (File_names_not_found ''maz_to_taz'')
         | Some (Names _) \<Rightarrow> Inl Path_type_error
         | Some (One_name file_name) \<Rightarrow>
            (case read_csv_maz_to_taz cfg file_name of
               None \<Rightarrow> Inl (Missing_csv_file file_name)
             | Some taz \<Rightarrow>
                let cardinality = number_add (column_max (MAZ taz)) 1 in
                (case map_of (table_info self) ''maz_to_maz'' of
                   None \<Rightarrow> Inl (File_names_not_found ''maz_to_maz'')
                 | Some names \<Rightarrow>
                    (case load_maz_to_maz cfg cardinality (as_list names) (maz_to_maz_df self) of
                       Inl e \<Rightarrow> Inl e
                     | Inr df \<Rightarrow>
                         Inr (self\<lparr>maz_to_taz_df := Some taz,
                                   maz_to_maz_cardinality := Some cardinality,
                                   maz_to_maz_df := df\<rparr>)))))
      else Inr self)"

text \<open>An arithmetic operation of numpy on two one-dimensional arrays, with broadcasting.\<close>

definition broadcast2 :: "('a \<Rightarrow> 'b \<Rightarrow> 'c) \<Rightarrow> 'a list \<Rightarrow> 'b list \<Rightarrow> failure + 'c list" where
  "broadcast2 f xs ys =
     (if length xs = length ys then Inr (map2 f xs ys)
      else if length xs = 1 then Inr (map (f (hd xs)) ys)
      else if length ys = 1 then Inr (map (\<lambda>x. f x (hd ys)) xs)
      else Inl Broadcast_error)"

text \<open>
  Modelled from the spec: \<open>util.quick_loc_df\<close> (activitysim/core/util.py) is not among
  the sources. The spec says of it that \<open>get_mazpairs\<close> "computes the synthetic index
  for each pair and performs a vectorized positional lookup against the ZonePairTable,
  returning a plain array aligned to input order": for each label of \<open>loc_list\<close>, in
  order, the cell of the column \<open>attribute\<close> in the row of that label (NaN, here
  \<open>None\<close>, where there is none). That is a series when one column has the name; when
  several have it, pandas selects them all, and what comes back is a frame with a cell
  for each of them in every row.
\<close>

datatype 'v selection = Series "'v option list" | Frame "'v option list list"

definition quick_loc_df ::
  "number list \<Rightarrow> 'v dataframe option \<Rightarrow> string \<Rightarrow> failure + 'v selection" where
  "quick_loc_df loc_list target_df attribute =
     (case target_df of
        None \<Rightarrow> Inl Table_is_None
      | Some df \<Rightarrow>
         (case filter (\<lambda>c. fst c = attribute) (columns df) of
            [] \<Rightarrow> Inl (Column_not_found attribute)
          | [c] \<Rightarrow> Inr (Series (map (map_of (snd c)) loc_list))
          | c # cs \<Rightarrow> Inr (Frame (map (\<lambda>label. map (\<lambda>c. map_of (snd c) label) (c # cs)) loc_list))))"

text \<open>\<open>np.asanyarray\<close>: the values of a series as an array of one dimension, of a frame of two.\<close>

datatype 'v array = Array_1d "'v option list" | Array_2d "'v option list list"

fun asanyarray :: "'v selection \<Rightarrow> 'v array" where
  "asanyarray (Series vals) = Array_1d vals"
| "asanyarray (Frame rows) = Array_2d rows"

text \<open>Line 486 to 498, for \<open>omaz\<close> and \<open>dmaz\<close> of one dimension.\<close>

definition get_mazpairs ::
  "'v Network_LOS \<Rightarrow> i64 list \<Rightarrow> i64 list \<Rightarrow> string \<Rightarrow> failure + 'v array" where
  "get_mazpairs self omaz dmaz attribute =
     (case maz_to_maz_cardinality self of
        None \<Rightarrow> Inl Cardinality_is_None
      | Some cardinality \<Rightarrow>
         (case broadcast2 (\<lambda>om dm. number_add (number_mul om cardinality) dm) omaz dmaz of
            Inl e \<Rightarrow> Inl e
          | Inr i \<Rightarrow>
             (case quick_loc_df i (maz_to_maz_df self) attribute of
                Inl e \<Rightarrow> Inl e
              | Inr s \<Rightarrow> Inr (asanyarray s))))"

section \<open>The attributes of a \<open>Network_LOS\<close> object\<close>

text \<open>
  For \<open>get_table\<close> only the names matter that the instance has attributes for. The
  instance dictionary maps a name to its value; the values are left abstract. For
  each method of the class, \<open>assigned\<close> lists the attributes its body assigns
  (\<open>self.name = ...\<close>; \<open>__init__\<close> goes on to call \<open>read_los_settings\<close>). Writing
  into a dictionary that an attribute holds (\<open>self.skim_info[skim_tag] = ...\<close>) assigns
  no attribute. A call of a method changes the instance dictionary by some sequence of
  assignments to attributes its body assigns: a branch not taken, a loop and an exception
  half way through are all covered.
\<close>

datatype los_method =
    Init | Read_los_settings | Load_all_tables | Load_skim_info | Create_skim_dict
  | Load_all_skims | Load_shared_data | Allocate_shared_skim_buffers | Get_skim_dict
  | Get_table | Get_mazpairs

definition assigned_by_read_los_settings :: "string list" where
  "assigned_by_read_los_settings = [''zone_system'', ''table_info'', ''skim_time_periods'']"

fun assigned :: "los_method \<Rightarrow> string list" where
  "assigned Read_los_settings = assigned_by_read_los_settings"
| "assigned Init =
     [''zone_system'', ''skim_time_periods'', ''skim_info'', ''skim_dicts'', ''skim_buffers'',
      ''table_info'', ''maz_to_taz_df'', ''maz_to_maz_df'', ''maz_to_maz_cardinality'',
      ''skim_time_periods''] @ assigned_by_read_los_settings"
| "assigned Load_all_tables = [''maz_to_taz_df'', ''maz_to_maz_cardinality'', ''maz_to_maz_df'']"
| "assigned Load_skim_info = []"
| "assigned Create_skim_dict = []"
| "assigned Load_all_skims = []"
| "assigned Load_shared_data = []"
| "assigned Allocate_shared_skim_buffers = []"
| "assigned Get_skim_dict = []"
| "assigned Get_table = []"
| "assigned Get_mazpairs = []"

text \<open>The names the class itself defines, which attribute lookup falls back to.\<close>

definition class_namespace :: "string list" where
  "class_namespace =
     [''__init__'', ''read_los_settings'', ''load_all_tables'', ''load_skim_info'',
      ''create_skim_dict'', ''load_all_skims'', ''load_shared_data'',
      ''allocate_shared_skim_buffers'', ''get_skim_dict'', ''get_table'', ''get_mazpairs'']"

datatype attribute_failure =
    AttributeError string
  | Not_a_container string
  | Table_not_loaded string

fun setattrs :: "(string \<times> 'val) list \<Rightarrow> (string \<Rightarrow> 'val option) \<Rightarrow> (string \<Rightarrow> 'val option)" where
  "setattrs [] d = d"
| "setattrs ((name, v) # rest) d = setattrs rest (d(name \<mapsto> v))"

definition call :: "los_method \<Rightarrow> (string \<times> 'val) list \<Rightarrow> (string \<Rightarrow> 'val option) \<Rightarrow> (string \<Rightarrow> 'val option)" where
  "call m writes d = setattrs (filter (\<lambda>w. fst w \<in> set (assigned m)) writes) d"

fun calls :: "(los_method \<times> (string \<times> 'val) list) list \<Rightarrow> (string \<Rightarrow> 'val option) \<Rightarrow> (string \<Rightarrow> 'val option)" where
  "calls [] d = d"
| "calls ((m, writes) # rest) d = calls rest (call m writes d)"

text \<open>
  Line 482 to 484. \<open>self.tables\<close> is looked up first: in the instance, then in the
  class. \<open>dict_get\<close> is \<open>tables.get\<close>, for whatever value \<open>tables\<close> would be.
\<close>

definition get_table ::
  "('val \<Rightarrow> string \<Rightarrow> 'tbl option) \<Rightarrow> (string \<Rightarrow> 'val option) \<Rightarrow> string \<Rightarrow> attribute_failure + 'tbl" where
  "get_table dict_get d table_name =
     (case d ''tables'' of
        Some tables \<Rightarrow>
          (case dict_get tables table_name of
             None \<Rightarrow> Inl (Table_not_loaded table_name)
           | Some t \<Rightarrow> Inr t)
      | None \<Rightarrow>
          if ''tables'' \<in> set class_namespace then Inl (Not_a_container ''tables'')
          else Inl (AttributeError ''tables''))"

chapter \<open>Notions for the claims\<close>

section \<open>What the enumerated files list\<close>

text \<open>
  Three views of the data directory, for stating what \<open>load_skim_info\<close> does: the
  matrix names the files list, each with its file, in the order of enumeration; their
  mappings; their shapes. A file that is not there lists nothing.
\<close>

fun listed_matrices :: "data_dir \<Rightarrow> string list \<Rightarrow> (string \<times> string) list" where
  "listed_matrices dir [] = []"
| "listed_matrices dir (n # ns) =
     (case dir n of None \<Rightarrow> [] | Some f \<Rightarrow> map (\<lambda>m. (fst m, n)) (listMatrices f))
       @ listed_matrices dir ns"

fun listed_mappings :: "data_dir \<Rightarrow> string list \<Rightarrow> (string \<times> int list) list" where
  "listed_mappings dir [] = []"
| "listed_mappings dir (n # ns) =
     (case dir n of None \<Rightarrow> [] | Some f \<Rightarrow> listMappings f) @ listed_mappings dir ns"

fun listed_shapes :: "data_dir \<Rightarrow> string list \<Rightarrow> nat list list" where
  "listed_shapes dir [] = []"
| "listed_shapes dir (n # ns) =
     (case dir n of None \<Rightarrow> [] | Some f \<Rightarrow> [shape f]) @ listed_shapes dir ns"

section \<open>Skim keys and retained names\<close>

text \<open>
  The skim key of a matrix name (line 253 and 259), and whether a name passes the
  filter of line 256 for a set of labels: it has no separator, or the part after its
  first separator is one of the labels.
\<close>

definition skim_key_of :: "string \<Rightarrow> skim_key" where
  "skim_key_of skim_name =
     (case str_partition ''__'' skim_name of
        (key1, sep, key2) \<Rightarrow> if sep \<noteq> [] then Key2 key1 key2 else Key key1)"

definition retained :: "string list \<Rightarrow> string \<Rightarrow> bool" where
  "retained labels skim_name =
     (case str_partition ''__'' skim_name of
        (key1, sep, key2) \<Rightarrow> sep = [] \<or> key2 \<in> set labels)"

section \<open>The dictionaries of subkeys\<close>

text \<open>The sub-dictionary of the first part of a key holds its second part.\<close>

definition has_subkey :: "(string \<times> (string \<times> nat) list) list \<Rightarrow> skim_key \<Rightarrow> bool" where
  "has_subkey subkeys k =
     (case map_of subkeys (fst (key_parts k)) of
        None \<Rightarrow> False
      | Some d \<Rightarrow> snd (key_parts k) \<in> fst ` set d)"

text \<open>
  What \<open>key1_subkeys\<close> is like while no two keys have the same parts \<open>(key1, key2)\<close>:
  its sub-dictionaries number their subkeys from 0 in the order met, and the pairs it
  holds are the parts of the keys read so far.
\<close>

definition good_subkeys :: "(string \<times> (string \<times> nat) list) list \<Rightarrow> bool" where
  "good_subkeys subkeys \<longleftrightarrow>
     distinct (map fst subkeys)
     \<and> (\<forall>key1 d. map_of subkeys key1 = Some d \<longrightarrow>
           map snd d = [0..<length d] \<and> distinct (map fst d))"

definition pairs_of :: "(string \<times> (string \<times> nat) list) list \<Rightarrow> (string \<times> string) set" where
  "pairs_of subkeys = {(key1, key2). \<exists>d. map_of subkeys key1 = Some d \<and> key2 \<in> fst ` set d}"

text \<open>
  The slots the sub-dictionaries stand for, laid out block after block from an offset:
  what \<open>key1_block_offsets\<close> and \<open>block_offsets\<close> compute one key at a time.
\<close>

fun laid_out :: "(string \<times> (string \<times> nat) list) list \<Rightarrow> nat \<Rightarrow> ((string \<times> string) \<times> nat) list" where
  "laid_out [] offset = []"
| "laid_out ((key1, d) # rest) offset =
     map (\<lambda>e. ((key1, fst e), offset + snd e)) d @ laid_out rest (offset + length d)"

section \<open>The loaded table\<close>

text \<open>The synthetic index of a pair of ids: \<open>o * cardinality + d\<close>.\<close>

definition pair_label :: "number \<Rightarrow> i64 \<times> i64 \<Rightarrow> number" where
  "pair_label cardinality od = number_add (number_mul (fst od) cardinality) (snd od)"




text \<open>The columns and row labels of the table, as the files give them.\<close>

fun frame_columns :: "'v dataframe option \<Rightarrow> (string \<times> (number \<times> 'v) list) list" where
  "frame_columns None = []"
| "frame_columns (Some df) = columns df"


fun frame_index :: "'v dataframe option \<Rightarrow> number list" where
  "frame_index None = []"
| "frame_index (Some df) = index df"

chapter \<open>Inputs to run the code on\<close>

section \<open>Skim files\<close>

text \<open>
  Two files of one shape that share a mapping and list \<open>DIST\<close>, \<open>TIME__AM\<close> and
  \<open>TIME__PM\<close>, and a third of another shape that lists \<open>DIST\<close> again.
\<close>

definition skims1 :: omx_file where
  "skims1 = \<lparr> shape = [2, 2], listMatrices = [(''DIST'', Float64)],
               listMappings = [(''zone_number'', [1, 2])] \<rparr>"

definition skims2 :: omx_file where
  "skims2 = \<lparr> shape = [2, 2], listMatrices = [(''TIME__AM'', Float64), (''TIME__PM'', Float32)],
               listMappings = [(''zone_number'', [1, 2])] \<rparr>"

definition skims3 :: omx_file where
  "skims3 = \<lparr> shape = [3, 3], listMatrices = [(''DIST'', Float32)], listMappings = [] \<rparr>"

definition example_dir :: data_dir where
  "example_dir = [''skims1.omx'' \<mapsto> skims1, ''skims2.omx'' \<mapsto> skims2, ''skims3.omx'' \<mapsto> skims3]"

definition example_info :: skim_info where
  "example_info =
    \<lparr> skim_tag = ''taz'', omx_file_names = [''skims1.omx'', ''skims2.omx''],
      omx_manifest = [(''DIST'', ''skims1.omx''), (''TIME__AM'', ''skims2.omx''),
                      (''TIME__PM'', ''skims2.omx'')],
      omx_shape = Some [2, 2], num_skims = 3, dtype = Float32,
      offset_map_name = Some ''zone_number'', offset_map = Some [1, 2],
      omx_keys = [(Key ''DIST'', ''DIST''), (Key2 ''TIME'' ''AM'', ''TIME__AM''),
                  (Key2 ''TIME'' ''PM'', ''TIME__PM'')],
      key1_block_offsets = [(''DIST'', 0), (''TIME'', 1)],
      block_offsets = [(Key ''DIST'', 0), (Key2 ''TIME'' ''AM'', 1), (Key2 ''TIME'' ''PM'', 2)] \<rparr>"

text \<open>A file that lists \<open>DIST\<close> and \<open>DIST__DIST\<close>, and the catalog built from it.\<close>

definition clash_dir :: data_dir where
  "clash_dir = [''skims.omx'' \<mapsto>
     \<lparr> shape = [2, 2], listMatrices = [(''DIST'', Float32), (''DIST__DIST'', Float32)],
       listMappings = [] \<rparr>]"

definition clash_info :: skim_info where
  "clash_info =
     \<lparr> skim_tag = ''taz'', omx_file_names = [''skims.omx''],
       omx_manifest = [(''DIST'', ''skims.omx''), (''DIST__DIST'', ''skims.omx'')],
       omx_shape = Some [2, 2], num_skims = 2, dtype = Float32,
       offset_map_name = None, offset_map = None,
       omx_keys = [(Key ''DIST'', ''DIST''), (Key2 ''DIST'' ''DIST'', ''DIST__DIST'')],
       key1_block_offsets = [(''DIST'', 0)],
       block_offsets = [(Key ''DIST'', 1), (Key2 ''DIST'' ''DIST'', 1)] \<rparr>"

section \<open>Settings and tables\<close>

text \<open>
  Settings that name the two skim files under \<open>taz\<close> and both required tables, with
  the zone system given; the tables are those of a zone system with the MAZ 0, 1 and 2.
  With \<open>TWO_ZONE\<close> the constructor returns \<open>example_los\<close>.
\<close>

definition zone_config :: "int \<Rightarrow> int config" where
  "zone_config z =
     \<lparr> setting_network_los = Some
         \<lparr> get_zone_system = Some z,
           get_skims = Some [(''taz'', Names [''skims1.omx'', ''skims2.omx''])],
           get_tables = Some [(''maz_to_maz'', One_name ''maz_to_maz.csv''),
                              (''maz_to_taz'', One_name ''maz_to_taz.csv'')] \<rparr>,
       setting_skim_time_periods = Some [''AM'', ''PM''],
       omx_files = example_dir,
       read_csv_maz_to_taz = [''maz_to_taz.csv'' \<mapsto> \<lparr> MAZ = [0, 1, 2] \<rparr>],
       read_csv_maz_to_maz = [''maz_to_maz.csv'' \<mapsto>
          \<lparr> OMAZ = [0, 1, 2], DMAZ = [1, 2, 0],
            attribute_columns = [(''attr'', [10, 20, 30])] \<rparr>] \<rparr>"

definition example_los :: "int Network_LOS" where
  "example_los =
     \<lparr> zone_system = Some 2, skim_time_periods = Some [''AM'', ''PM''],
       skim_info = [(''taz'', example_info)],
       table_info = [(''maz_to_maz'', One_name ''maz_to_maz.csv''),
                     (''maz_to_taz'', One_name ''maz_to_taz.csv'')],
       maz_to_taz_df = None, maz_to_maz_df = None, maz_to_maz_cardinality = None \<rparr>"


text \<open>
  A zone system with the MAZ 2, 0 and 1 and two \<open>maz_to_maz\<close> files: the first brings a
  column \<open>i\<close> of its own, and both bring a column \<open>dist\<close>.
\<close>

definition pairs_config :: "int config" where
  "pairs_config =
     (zone_config TWO_ZONE)
       \<lparr> read_csv_maz_to_taz := [''maz_to_taz.csv'' \<mapsto> \<lparr> MAZ = [2, 0, 1] \<rparr>],
         read_csv_maz_to_maz :=
           [''od_a.csv'' \<mapsto> \<lparr> OMAZ = [0, 1, 2], DMAZ = [1, 2, 0],
                attribute_columns = [(''attr'', [10, 20, 30]), (''i'', [7, 8, 9]),
                                     (''dist'', [1, 2, 3])] \<rparr>,
            ''od_b.csv'' \<mapsto> \<lparr> OMAZ = [1], DMAZ = [2],
                attribute_columns = [(''dist'', [5])] \<rparr>] \<rparr>"

definition pairs_los :: "int Network_LOS" where
  "pairs_los =
     example_los\<lparr> table_info := [(''maz_to_maz'', Names [''od_a.csv'', ''od_b.csv'']),
                                  (''maz_to_taz'', One_name ''maz_to_taz.csv'')] \<rparr>"

text \<open>A \<open>maz_to_taz\<close> table without rows, and a \<open>maz_to_maz\<close> file of one row.\<close>

definition empty_taz_config :: "int config" where
  "empty_taz_config =
     (zone_config TWO_ZONE)
       \<lparr> read_csv_maz_to_taz := [''maz_to_taz.csv'' \<mapsto> \<lparr> MAZ = [] \<rparr>],
         read_csv_maz_to_maz :=
           [''maz_to_maz.csv'' \<mapsto> \<lparr> OMAZ = [1], DMAZ = [2],
                attribute_columns = [(''attr'', [20])] \<rparr>] \<rparr>"

section \<open>A cache\<close>

text \<open>Twelve float32 ones, written to \<open>output/cached_taz.mmap\<close> and read back over zeros.\<close>

definition example_env :: cache_env where
  "example_env =
     \<lparr> setting_skim_cache_dir = None, output_dir = ''output'', files = Map.empty,
       mmap_empty = False, astype = (\<lambda>_ _ bs. bs) \<rparr>"

definition ones :: ndarray where
  "ones = \<lparr> nd_shape = [2, 2, 3], nd_dtype = Float32,
            nd_bytes = concat (replicate 12 [0, 0, 128, 63]) \<rparr>"

definition zeros :: ndarray where
  "zeros = \<lparr> nd_shape = [2, 2, 3], nd_dtype = Float32, nd_bytes = replicate 48 0 \<rparr>"

chapter \<open>Properties\<close>

section \<open>The loop over the files, step by step\<close>

lemma update_absent: "map_of al k = None \<Longrightarrow> AList.update k v al = al @ [(k, v)]"
  by (induction al) (auto split: if_splits)

lemma add_matrices_Inr:
  "add_matrices f ns man = Inr man' \<Longrightarrow>
     man' = man @ map (\<lambda>n. (n, f)) ns \<and> distinct ns \<and> set ns \<inter> fst ` set man = {}"
proof (induction ns arbitrary: man)
  case Nil
  then show ?case by simp
next
  case (Cons n ns)
  from Cons.prems have none: "map_of man n = None"
    by (simp split: option.splits)
  with Cons.prems have "add_matrices f ns (man @ [(n, f)]) = Inr man'"
    by (simp add: update_absent)
  from Cons.IH[OF this] none show ?case
    by (auto simp: map_of_eq_None_iff)
qed

lemma add_matrices_ok:
  "distinct ns \<Longrightarrow> set ns \<inter> fst ` set man = {} \<Longrightarrow>
     add_matrices f ns man = Inr (man @ map (\<lambda>n. (n, f)) ns)"
proof (induction ns arbitrary: man)
  case Nil
  then show ?case by simp
next
  case (Cons n ns)
  then have none: "map_of man n = None"
    by (auto simp: map_of_eq_None_iff)
  have "add_matrices f ns (man @ [(n, f)]) = Inr ((man @ [(n, f)]) @ map (\<lambda>n. (n, f)) ns)"
    using Cons.prems by (intro Cons.IH) auto
  with none show ?case by (simp add: update_absent)
qed



lemma scan_mappings_append:
  "scan_mappings sh (xs @ ys) om =
     (case scan_mappings sh xs om of Inl e \<Rightarrow> Inl e | Inr om' \<Rightarrow> scan_mappings sh ys om')"
  by (induction sh xs om rule: scan_mappings.induct) (auto split: list.splits)

lemma scan_mappings_Some:
  "scan_mappings sh ms (Some (m0, e0)) = Inr r \<longleftrightarrow>
     r = Some (m0, e0) \<and> (\<forall>p \<in> set ms. snd p = e0)"
  by (induction ms) (auto split: if_splits)

lemma scan_mappings_None:
  "scan_mappings sh ms None = Inr r \<longleftrightarrow>
     (case ms of
        [] \<Rightarrow> r = None
      | p # rest \<Rightarrow> sh \<noteq> [] \<and> length (snd p) = hd sh \<and> r = Some p
                     \<and> (\<forall>q \<in> set rest. snd q = snd p))"
  by (cases ms; cases sh) (force simp: scan_mappings_Some split: if_splits)+

lemma check_shape_Inr:
  "check_shape sh s = Inr s1 \<longleftrightarrow> s1 = s \<and> (sh = None \<or> sh = Some s)"
  by (cases sh) auto

lemma read_omx_files_ConsD:
  "read_omx_files dir (n # ns) (sh, om, man) = Inr r \<Longrightarrow>
     (\<exists>f man1 om1. dir n = Some f \<and> (sh = None \<or> sh = Some (shape f))
        \<and> add_matrices n (map fst (listMatrices f)) man = Inr man1
        \<and> scan_mappings (shape f) (listMappings f) om = Inr om1
        \<and> read_omx_files dir ns (Some (shape f), om1, man1) = Inr r)"
  by (cases sh) (auto split: option.splits sum.splits if_splits)

lemma read_omx_files_exist:
  "read_omx_files dir names (sh, om, man) = Inr r \<Longrightarrow> n \<in> set names \<Longrightarrow> dir n \<noteq> None"
proof (induction names arbitrary: sh om man)
  case Nil
  then show ?case by simp
next
  case (Cons a names)
  from read_omx_files_ConsD[OF Cons.prems(1)] obtain f man1 om1 where
    f: "dir a = Some f" and
    rest: "read_omx_files dir names (Some (shape f), om1, man1) = Inr r"
    by blast
  show ?case
  proof (cases "n = a")
    case True
    with f show ?thesis by simp
  next
    case False
    with Cons.prems(2) have "n \<in> set names" by simp
    from Cons.IH[OF rest this] show ?thesis .
  qed
qed

lemma read_omx_files_manifest:
  "read_omx_files dir names (sh, om, man) = Inr (sh', om', man') \<Longrightarrow>
     man' = man @ listed_matrices dir names"
proof (induction names arbitrary: sh om man)
  case Nil
  then show ?case by simp
next
  case (Cons a names)
  from read_omx_files_ConsD[OF Cons.prems] obtain f man1 om1 where
    f: "dir a = Some f" and
    man1: "add_matrices a (map fst (listMatrices f)) man = Inr man1" and
    rest: "read_omx_files dir names (Some (shape f), om1, man1) = Inr (sh', om', man')"
    by blast
  from add_matrices_Inr[OF man1] have "man1 = man @ map (\<lambda>m. (fst m, a)) (listMatrices f)"
    by (simp add: comp_def)
  with Cons.IH[OF rest] f show ?case by simp
qed

lemma add_matrices_distinct:
  assumes "add_matrices f ns man = Inr man'" and "distinct (map fst man)"
  shows "distinct (map fst man')"
proof -
  from add_matrices_Inr[OF assms(1)] have
    "man' = man @ map (\<lambda>n. (n, f)) ns" "distinct ns" "set ns \<inter> fst ` set man = {}"
    by blast+
  with assms(2) show ?thesis by (auto simp: comp_def)
qed

lemma read_omx_files_distinct:
  "read_omx_files dir names (sh, om, man) = Inr (sh', om', man') \<Longrightarrow>
     distinct (map fst man) \<Longrightarrow> distinct (map fst man')"
proof (induction names arbitrary: sh om man)
  case Nil
  then show ?case by simp
next
  case (Cons a names)
  from read_omx_files_ConsD[OF Cons.prems(1)] obtain f man1 om1 where
    f: "dir a = Some f" and
    man1: "add_matrices a (map fst (listMatrices f)) man = Inr man1" and
    rest: "read_omx_files dir names (Some (shape f), om1, man1) = Inr (sh', om', man')"
    by blast
  from add_matrices_distinct[OF man1 Cons.prems(2)] Cons.IH[OF rest] show ?case by blast
qed

lemma read_omx_files_shape_kept:
  "read_omx_files dir names (Some s, om, man) = Inr (sh', om', man') \<Longrightarrow> sh' = Some s"
proof (induction names arbitrary: om man)
  case Nil
  then show ?case by simp
next
  case (Cons a names)
  from read_omx_files_ConsD[OF Cons.prems] obtain f man1 om1 where
    f: "dir a = Some f" and "Some s = Some (shape f)" and
    rest: "read_omx_files dir names (Some (shape f), om1, man1) = Inr (sh', om', man')"
    by blast
  with Cons.IH[of om1 man1] show ?case by simp
qed

lemma read_omx_files_shapes:
  "read_omx_files dir names (sh, om, man) = Inr (sh', om', man') \<Longrightarrow>
     s \<in> set (listed_shapes dir names) \<Longrightarrow> sh' = Some s"
proof (induction names arbitrary: sh om man)
  case Nil
  then show ?case by simp
next
  case (Cons a names)
  from read_omx_files_ConsD[OF Cons.prems(1)] obtain f man1 om1 where
    f: "dir a = Some f" and
    rest: "read_omx_files dir names (Some (shape f), om1, man1) = Inr (sh', om', man')"
    by blast
  from read_omx_files_shape_kept[OF rest] have sh': "sh' = Some (shape f)" .
  from Cons.prems(2) f have "s = shape f \<or> s \<in> set (listed_shapes dir names)" by simp
  then show ?case
  proof
    assume "s = shape f"
    with sh' show ?thesis by simp
  next
    assume "s \<in> set (listed_shapes dir names)"
    from Cons.IH[OF rest this] show ?thesis .
  qed
qed

lemma read_omx_files_no_files:
  "read_omx_files dir names (None, om, man) = Inr (None, om', man') \<Longrightarrow> names = []"
proof (cases names)
  case Nil
  then show ?thesis by simp
next
  case (Cons a ns)
  assume "read_omx_files dir names (None, om, man) = Inr (None, om', man')"
  with Cons have "read_omx_files dir (a # ns) (None, om, man) = Inr (None, om', man')" by simp
  from read_omx_files_ConsD[OF this] obtain f man1 om1 where
    f: "dir a = Some f" and
    rest: "read_omx_files dir ns (Some (shape f), om1, man1) = Inr (None, om', man')"
    by blast
  from read_omx_files_shape_kept[OF rest] show ?thesis by simp
qed

lemma read_omx_files_mappings:
  "read_omx_files dir names (sh, om, man) = Inr (Some s, om', man') \<Longrightarrow>
     scan_mappings s (listed_mappings dir names) om = Inr om'"
proof (induction names arbitrary: sh om man)
  case Nil
  then show ?case by simp
next
  case (Cons a names)
  from read_omx_files_ConsD[OF Cons.prems] obtain f man1 om1 where
    f: "dir a = Some f" and
    om1: "scan_mappings (shape f) (listMappings f) om = Inr om1" and
    rest: "read_omx_files dir names (Some (shape f), om1, man1) = Inr (Some s, om', man')"
    by blast
  from read_omx_files_shape_kept[OF rest] have s: "s = shape f" by simp
  from Cons.IH[OF rest] om1 f s show ?case
    by (simp add: scan_mappings_append)
qed


lemma read_omx_files_ok:
  assumes "\<forall>n \<in> set names. dir n \<noteq> None"
    and "\<forall>s \<in> set (listed_shapes dir names). s = s0"
    and "sh = None \<or> sh = Some s0"
    and "distinct (map fst (listed_matrices dir names))"
    and "set (map fst (listed_matrices dir names)) \<inter> fst ` set man = {}"
    and "scan_mappings s0 (listed_mappings dir names) om = Inr om'"
  shows "read_omx_files dir names (sh, om, man) =
           Inr (if names = [] then sh else Some s0, om', man @ listed_matrices dir names)"
  using assms
proof (induction names arbitrary: sh om man)
  case Nil
  then show ?case by simp
next
  case (Cons a names)
  from Cons.prems(1) obtain f where f: "dir a = Some f" by auto
  let ?ms = "map fst (listMatrices f)"
  let ?man1 = "man @ map (\<lambda>n. (n, a)) ?ms"
  from Cons.prems(2) f have s0: "shape f = s0" by simp
  with Cons.prems(3) have cs: "check_shape sh (shape f) = Inr s0"
    by (cases sh) auto
  from Cons.prems(4,5) f have "distinct ?ms" "set ?ms \<inter> fst ` set man = {}"
    by (auto simp: comp_def)
  from add_matrices_ok[OF this] have am: "add_matrices a ?ms man = Inr ?man1" .
  from Cons.prems(6) f obtain om1 where
    om1: "scan_mappings s0 (listMappings f) om = Inr om1" and
    om': "scan_mappings s0 (listed_mappings dir names) om1 = Inr om'"
    by (auto simp: scan_mappings_append split: sum.splits)
  have disj: "set (map fst (listed_matrices dir names)) \<inter> fst ` set ?man1 = {}"
    using Cons.prems(4,5) f by (auto simp: comp_def image_Un image_image)
  have "read_omx_files dir names (Some s0, om1, ?man1) =
          Inr (if names = [] then Some s0 else Some s0, om', ?man1 @ listed_matrices dir names)"
    using Cons.prems(1,2,4) f disj om' by (intro Cons.IH) auto
  with f cs am om1 show ?case by (simp add: comp_def)
qed



section \<open>The offsets are always found\<close>

lemma has_subkey_step_same:
  "has_subkey (AList.update (fst (key_parts k))
     (AList.update (snd (key_parts k)) v
        (case map_of subkeys (fst (key_parts k)) of None \<Rightarrow> [] | Some d \<Rightarrow> d)) subkeys) k"
  by (simp add: has_subkey_def update_conv' dom_update)

lemma has_subkey_step_other:
  "has_subkey subkeys k \<Longrightarrow>
   has_subkey (AList.update k1
     (AList.update k2 v (case map_of subkeys k1 of None \<Rightarrow> [] | Some d \<Rightarrow> d)) subkeys) k"
  by (auto simp: has_subkey_def update_conv' dom_update split: option.splits)

lemma build_key1_subkeys_has:
  "has_subkey subkeys k \<or> k \<in> set ks \<Longrightarrow> has_subkey (build_key1_subkeys ks subkeys) k"
proof (induction ks arbitrary: subkeys)
  case Nil
  then show ?case by simp
next
  case (Cons a ks)
  obtain k1 k2 where a: "key_parts a = (k1, k2)" by (cases "key_parts a")
  let ?step = "AList.update k1
     (AList.update k2 (length (case map_of subkeys k1 of None \<Rightarrow> [] | Some d \<Rightarrow> d))
        (case map_of subkeys k1 of None \<Rightarrow> [] | Some d \<Rightarrow> d)) subkeys"
  have "has_subkey ?step k \<or> k \<in> set ks"
  proof (cases "k = a")
    case True
    with has_subkey_step_same[of a _ subkeys] a show ?thesis by simp
  next
    case False
    with Cons.prems have "has_subkey subkeys k \<or> k \<in> set ks" by simp
    with has_subkey_step_other show ?thesis by blast
  qed
  from Cons.IH[OF this] a show ?case by (simp add: Let_def)
qed

lemma build_key1_subkeys_dom:
  "fst ` set (build_key1_subkeys ks subkeys) = fst ` set subkeys \<union> (fst \<circ> key_parts) ` set ks"
proof (induction ks arbitrary: subkeys)
  case Nil
  then show ?case by simp
next
  case (Cons a ks)
  obtain k1 k2 where a: "key_parts a = (k1, k2)" by (cases "key_parts a")
  show ?case
    by (simp add: a Let_def Cons.IH dom_update)
qed

lemma build_key1_block_offsets_dom:
  "fst ` set (build_key1_block_offsets subkeys offset offsets) =
     fst ` set offsets \<union> fst ` set subkeys"
  by (induction subkeys offset offsets rule: build_key1_block_offsets.induct)
     (auto simp: dom_update)

lemma build_block_offsets_total:
  assumes "\<forall>k \<in> set ks. has_subkey subkeys k \<and> fst (key_parts k) \<in> fst ` set k1offs"
  shows "\<exists>offs. build_block_offsets subkeys k1offs ks acc = Inr offs"
  using assms
proof (induction ks arbitrary: acc)
  case Nil
  then show ?case by simp
next
  case (Cons a ks)
  obtain k1 k2 where a: "key_parts a = (k1, k2)" by (cases "key_parts a")
  from Cons.prems a obtain d where d: "map_of subkeys k1 = Some d" "k2 \<in> fst ` set d"
    by (auto simp: has_subkey_def split: option.splits)
  then obtain r where r: "map_of d k2 = Some r"
    by (cases "map_of d k2") (auto simp: map_of_eq_None_iff)
  from Cons.prems a obtain off where off: "map_of k1offs k1 = Some off"
    by (cases "map_of k1offs k1") (auto simp: map_of_eq_None_iff)
  from Cons.prems have "\<forall>k \<in> set ks. has_subkey subkeys k \<and> fst (key_parts k) \<in> fst ` set k1offs"
    by simp
  from Cons.IH[OF this] a d r off show ?case by simp
qed

lemma make_skim_info_total:
  "\<exists>info. make_skim_info tag names stp st = Inr info"
proof -
  obtain sh om manifest where st: "st = (sh, om, manifest)" by (cases st)
  let ?keys = "build_omx_keys (tags_to_load stp) (map fst manifest) []"
  let ?sub = "build_key1_subkeys (map fst ?keys) []"
  let ?k1 = "build_key1_block_offsets ?sub 0 []"
  have "\<forall>k \<in> set (map fst ?keys). has_subkey ?sub k \<and> fst (key_parts k) \<in> fst ` set ?k1"
    using build_key1_subkeys_has[of "[]" _ "map fst ?keys"]
    by (auto simp: build_key1_block_offsets_dom build_key1_subkeys_dom)
  from build_block_offsets_total[OF this, of "[]"] obtain offs where
    "build_block_offsets ?sub ?k1 (map fst ?keys) [] = Inr offs" by blast
  then show ?thesis by (simp add: make_skim_info_def st Let_def)
qed

lemma make_skim_info_fields:
  assumes "make_skim_info tag names stp (sh, om, manifest) = Inr info"
  shows "omx_manifest info = manifest" "omx_shape info = sh" "dtype info = Float32"
    "offset_map info = map_option snd om" "offset_map_name info = map_option fst om"
    "omx_keys info = build_omx_keys (tags_to_load stp) (map fst manifest) []"
    "num_skims info = length (omx_keys info)"
    "skim_tag info = tag" "omx_file_names info = names"
  using assms by (auto simp: make_skim_info_def Let_def split: sum.splits)

section \<open>\<open>load_skim_info\<close> as a whole\<close>

lemma load_skim_info_Inr:
  assumes "load_skim_info dir tag names stp = Inr info"
  shows "\<exists>sh om. read_omx_files dir names (None, None, []) = Inr (sh, om, listed_matrices dir names)
           \<and> make_skim_info tag names stp (sh, om, listed_matrices dir names) = Inr info"
proof -
  from assms obtain st where st: "read_omx_files dir names (None, None, []) = Inr st"
    and mk: "make_skim_info tag names stp st = Inr info"
    by (auto simp: load_skim_info_def split: sum.splits)
  obtain sh om man where "st = (sh, om, man)" by (cases st)
  with st mk read_omx_files_manifest[of dir names None None "[]" sh om man] show ?thesis by auto
qed


lemma load_skim_info_distinct:
  assumes "load_skim_info dir tag names stp = Inr info"
  shows "distinct (map fst (listed_matrices dir names))"
proof -
  from load_skim_info_Inr[OF assms] obtain sh om where
    "read_omx_files dir names (None, None, []) = Inr (sh, om, listed_matrices dir names)" by blast
  from read_omx_files_distinct[OF this] show ?thesis by simp
qed

lemma load_skim_info_ok:
  assumes "\<forall>n \<in> set names. dir n \<noteq> None"
    and "\<forall>s \<in> set (listed_shapes dir names). s = s0"
    and "distinct (map fst (listed_matrices dir names))"
    and "scan_mappings s0 (listed_mappings dir names) None = Inr om"
  shows "\<exists>info. load_skim_info dir tag names stp = Inr info"
proof -
  from read_omx_files_ok[OF assms(1,2) _ assms(3) _ assms(4), of None "[]"]
  obtain st where st: "read_omx_files dir names (None, None, []) = Inr st" by auto
  from make_skim_info_total[of tag names stp st] obtain info where
    "make_skim_info tag names stp st = Inr info" by blast
  with st show ?thesis by (simp add: load_skim_info_def)
qed



lemma load_skim_info_manifest:
  assumes "load_skim_info dir tag names stp = Inr info"
  shows "omx_manifest info = listed_matrices dir names"
proof -
  from load_skim_info_Inr[OF assms] obtain sh om where
    "make_skim_info tag names stp (sh, om, listed_matrices dir names) = Inr info" by blast
  from make_skim_info_fields(1)[OF this] show ?thesis .
qed

lemma load_skim_info_offset_map:
  assumes "load_skim_info dir tag names stp = Inr info"
  shows "case listed_mappings dir names of
           [] \<Rightarrow> offset_map info = None \<and> offset_map_name info = None
         | p # rest \<Rightarrow>
             offset_map info = Some (snd p) \<and> offset_map_name info = Some (fst p)
             \<and> (\<exists>rows dims. omx_shape info = Some (rows # dims) \<and> length (snd p) = rows)
             \<and> (\<forall>q \<in> set rest. snd q = snd p)"
proof -
  from load_skim_info_Inr[OF assms] obtain sh om where
    rd: "read_omx_files dir names (None, None, []) = Inr (sh, om, listed_matrices dir names)" and
    mk: "make_skim_info tag names stp (sh, om, listed_matrices dir names) = Inr info" by blast
  note F = make_skim_info_fields[OF mk]
  show ?thesis
  proof (cases sh)
    case None
    with rd have "names = []" by (auto dest: read_omx_files_no_files)
    with rd F show ?thesis by simp
  next
    case (Some s)
    with rd have "scan_mappings s (listed_mappings dir names) None = Inr om"
      by (auto dest: read_omx_files_mappings)
    then show ?thesis
      unfolding scan_mappings_None using F(2,4,5) Some
      by (cases s) (auto split: list.splits)
  qed
qed

section \<open>Matrix names and skim keys\<close>

lemma str_partition_parts:
  "str_partition sep s = (a, s', b) \<Longrightarrow> s = a @ s' @ b \<and> (s' = sep \<or> (s' = [] \<and> b = []))"
proof (induction s arbitrary: a s' b)
  case Nil
  then show ?case by simp
next
  case (Cons c cs)
  show ?case
  proof (cases "take (length sep) (c # cs) = sep")
    case True
    with Cons.prems have "a = []" "s' = sep" "b = drop (length sep) (c # cs)" by auto
    with True show ?thesis by (metis append_Nil append_take_drop_id)
  next
    case False
    obtain a0 s0 b0 where r: "str_partition sep cs = (a0, s0, b0)" by (cases "str_partition sep cs")
    with False Cons.prems have "a = c # a0" "s' = s0" "b = b0" by auto
    with Cons.IH[OF r] show ?thesis by auto
  qed
qed

lemma str_partition_no_sep:
  assumes "sep \<noteq> []"
  shows "fst (snd (str_partition sep s)) = [] \<longleftrightarrow> \<not> (\<exists>a b. s = a @ sep @ b)"
proof (induction s)
  case Nil
  with assms show ?case by simp
next
  case (Cons c cs)
  show ?case
  proof (cases "take (length sep) (c # cs) = sep")
    case True
    then have "c # cs = [] @ sep @ drop (length sep) (c # cs)"
      by (metis append_Nil append_take_drop_id)
    then have "\<exists>a b. c # cs = a @ sep @ b" by blast
    with True assms show ?thesis by simp
  next
    case False
    have "(\<exists>a b. c # cs = a @ sep @ b) \<longleftrightarrow> (\<exists>a b. cs = a @ sep @ b)"
    proof
      assume "\<exists>a b. c # cs = a @ sep @ b"
      then obtain a b where ab: "c # cs = a @ sep @ b" by blast
      show "\<exists>a b. cs = a @ sep @ b"
      proof (cases a)
        case Nil
        with ab have "take (length sep) (c # cs) = sep" by simp
        with False show ?thesis by simp
      next
        case (Cons x xs)
        with ab show ?thesis by auto
      qed
    next
      assume "\<exists>a b. cs = a @ sep @ b"
      then obtain a b where "cs = a @ sep @ b" by blast
      then have "c # cs = (c # a) @ sep @ b" by simp
      then show "\<exists>a b. c # cs = a @ sep @ b" by blast
    qed
    moreover obtain a0 s0 b0 where r: "str_partition sep cs = (a0, s0, b0)"
      by (cases "str_partition sep cs")
    ultimately show ?thesis using False Cons.IH by simp
  qed
qed

lemma skim_key_of_inj: "skim_key_of a = skim_key_of b \<Longrightarrow> a = b"
proof -
  assume eq: "skim_key_of a = skim_key_of b"
  obtain a1 as a2 where pa: "str_partition ''__'' a = (a1, as, a2)"
    by (cases "str_partition ''__'' a")
  obtain b1 bs b2 where pb: "str_partition ''__'' b = (b1, bs, b2)"
    by (cases "str_partition ''__'' b")
  note A = str_partition_parts[OF pa] and B = str_partition_parts[OF pb]
  from eq pa pb have "(as \<noteq> [] \<and> bs \<noteq> [] \<and> a1 = b1 \<and> a2 = b2) \<or> (as = [] \<and> bs = [] \<and> a1 = b1)"
    by (auto simp: skim_key_of_def split: if_splits)
  with A B show "a = b" by auto
qed

lemma build_omx_keys_filter:
  "build_omx_keys tags skim_names keys =
     build_omx_keys [] (filter (\<lambda>n. tags = [] \<or> retained tags n) skim_names) keys"
  by (induction skim_names arbitrary: keys) (auto simp: retained_def split: prod.splits)

lemma build_omx_keys_all:
  assumes "distinct skim_names" and "skim_key_of ` set skim_names \<inter> fst ` set keys = {}"
  shows "build_omx_keys [] skim_names keys = keys @ map (\<lambda>n. (skim_key_of n, n)) skim_names"
  using assms
proof (induction skim_names arbitrary: keys)
  case Nil
  then show ?case by simp
next
  case (Cons n ns)
  obtain k1 sep k2 where p: "str_partition ''__'' n = (k1, sep, k2)"
    by (cases "str_partition ''__'' n")
  then have k: "(if sep \<noteq> [] then Key2 k1 k2 else Key k1) = skim_key_of n"
    by (simp add: skim_key_of_def)
  from Cons.prems have "map_of keys (skim_key_of n) = None"
    by (auto simp: map_of_eq_None_iff)
  then have u: "AList.update (skim_key_of n) n keys = keys @ [(skim_key_of n, n)]"
    by (rule update_absent)
  have "skim_key_of ` set ns \<inter> fst ` set (keys @ [(skim_key_of n, n)]) = {}"
    using Cons.prems by (auto dest: skim_key_of_inj)
  with Cons.prems have "build_omx_keys [] ns (keys @ [(skim_key_of n, n)]) =
      (keys @ [(skim_key_of n, n)]) @ map (\<lambda>n. (skim_key_of n, n)) ns"
    by (intro Cons.IH) auto
  with p k u show ?case by simp
qed

lemma build_omx_keys_eq:
  assumes "distinct skim_names"
  shows "build_omx_keys tags skim_names [] =
     map (\<lambda>n. (skim_key_of n, n)) (filter (\<lambda>n. tags = [] \<or> retained tags n) skim_names)"
  using build_omx_keys_all[of "filter (\<lambda>n. tags = [] \<or> retained tags n) skim_names" "[]"] assms
  by (subst build_omx_keys_filter) simp

lemma load_skim_info_omx_keys:
  assumes "load_skim_info dir tag names stp = Inr info"
  shows "omx_keys info = map (\<lambda>n. (skim_key_of n, n))
           (filter (\<lambda>n. tags_to_load stp = [] \<or> retained (tags_to_load stp) n)
              (map fst (omx_manifest info)))"
    and "num_skims info = length (omx_keys info)"
proof -
  from load_skim_info_Inr[OF assms] obtain sh om where
    mk: "make_skim_info tag names stp (sh, om, listed_matrices dir names) = Inr info" by blast
  note F = make_skim_info_fields[OF mk]
  from load_skim_info_distinct[OF assms] F show "omx_keys info = map (\<lambda>n. (skim_key_of n, n))
           (filter (\<lambda>n. tags_to_load stp = [] \<or> retained (tags_to_load stp) n)
              (map fst (omx_manifest info)))"
    by (simp add: build_omx_keys_eq)
  from F show "num_skims info = length (omx_keys info)" by simp
qed

section \<open>The layout of the offsets\<close>

lemma subkeys_step:
  assumes g: "good_subkeys subkeys" and new: "(key1, key2) \<notin> pairs_of subkeys"
  defines "d \<equiv> (case map_of subkeys key1 of None \<Rightarrow> [] | Some d \<Rightarrow> d)"
  defines "subkeys' \<equiv> AList.update key1 (AList.update key2 (length d) d) subkeys"
  shows "good_subkeys subkeys'" and "pairs_of subkeys' = insert (key1, key2) (pairs_of subkeys)"
proof -
  have dd: "map snd d = [0..<length d] \<and> distinct (map fst d)"
    using g by (auto simp: d_def good_subkeys_def split: option.splits)
  have absent: "map_of d key2 = None"
  proof (cases "map_of subkeys key1")
    case None
    then show ?thesis by (simp add: d_def)
  next
    case (Some d0)
    with new have "key2 \<notin> fst ` set d0" by (simp add: pairs_of_def)
    with Some show ?thesis by (simp add: d_def map_of_eq_None_iff)
  qed
  then have u: "AList.update key2 (length d) d = d @ [(key2, length d)]"
    by (rule update_absent)
  have d': "map snd (d @ [(key2, length d)]) = [0..<length (d @ [(key2, length d)])]"
    "distinct (map fst (d @ [(key2, length d)]))"
    using dd absent by (auto simp: map_of_eq_None_iff)
  show "good_subkeys subkeys'"
    using g d' unfolding good_subkeys_def subkeys'_def u
    by (auto simp: update_conv' distinct_update)
  show "pairs_of subkeys' = insert (key1, key2) (pairs_of subkeys)"
    unfolding pairs_of_def subkeys'_def u
    by (auto simp: update_conv' d_def image_iff split: option.splits if_splits) force+
qed

lemma build_key1_subkeys_good:
  assumes "good_subkeys subkeys" and "distinct (map key_parts ks)"
    and "set (map key_parts ks) \<inter> pairs_of subkeys = {}"
  shows "good_subkeys (build_key1_subkeys ks subkeys)
    \<and> pairs_of (build_key1_subkeys ks subkeys) = pairs_of subkeys \<union> set (map key_parts ks)"
  using assms
proof (induction ks arbitrary: subkeys)
  case Nil
  then show ?case by simp
next
  case (Cons k ks)
  obtain key1 key2 where k: "key_parts k = (key1, key2)" by (cases "key_parts k")
  let ?d = "(case map_of subkeys key1 of None \<Rightarrow> [] | Some d \<Rightarrow> d)"
  let ?s = "AList.update key1 (AList.update key2 (length ?d) ?d) subkeys"
  from Cons.prems(3) k have new: "(key1, key2) \<notin> pairs_of subkeys" by auto
  note S = subkeys_step[OF Cons.prems(1) new]
  have "set (map key_parts ks) \<inter> pairs_of ?s = {}"
    using Cons.prems(2,3) k S(2) by auto
  from Cons.IH[OF S(1) _ this] Cons.prems(2) S(2) k show ?case
    by (auto simp: Let_def)
qed

lemma laid_out_keys:
  "fst ` set (laid_out subkeys offset) =
     {(key1, key2). \<exists>d. (key1, d) \<in> set subkeys \<and> key2 \<in> fst ` set d}"
proof (induction subkeys offset rule: laid_out.induct)
  case (1 offset)
  then show ?case by simp
next
  case (2 key1 d rest offset)
  have a: "fst ` set (map (\<lambda>e. ((key1, fst e), offset + snd e)) d) =
      {(k1, key2). k1 = key1 \<and> key2 \<in> fst ` set d}"
    by force
  have "fst ` set (laid_out ((key1, d) # rest) offset) =
     {(k1, key2). k1 = key1 \<and> key2 \<in> fst ` set d}
     \<union> {(k1, key2). \<exists>d. (k1, d) \<in> set rest \<and> key2 \<in> fst ` set d}"
    unfolding laid_out.simps set_append image_Un a 2 ..
  also have "\<dots> = {(k1, key2). \<exists>d'. (k1, d') \<in> set ((key1, d) # rest) \<and> key2 \<in> fst ` set d'}"
    by auto
  finally show ?case .
qed

lemma laid_out_pairs_of:
  "distinct (map fst subkeys) \<Longrightarrow> fst ` set (laid_out subkeys offset) = pairs_of subkeys"
  by (auto simp: laid_out_keys pairs_of_def)

lemma upt_shift: "map (\<lambda>i. offset + i) [0..<n] = [offset..<offset + n]"
  by (induction n) simp_all

lemma laid_out_values:
  "(\<forall>key1 d. (key1, d) \<in> set subkeys \<longrightarrow> map snd d = [0..<length d]) \<Longrightarrow>
     \<exists>n. map snd (laid_out subkeys offset) = [offset..<offset + n]"
proof (induction subkeys offset rule: laid_out.induct)
  case (1 offset)
  have "map snd (laid_out [] offset) = [offset..<offset + 0]" by simp
  then show ?case by blast
next
  case (2 key1 d rest offset)
  from 2(2) have r: "\<forall>key1 d. (key1, d) \<in> set rest \<longrightarrow> map snd d = [0..<length d]" by simp
  from 2(1)[OF r] obtain n where n: "map snd (laid_out rest (offset + length d)) =
      [offset + length d..<offset + length d + n]" by blast
  from 2(2) have d: "map snd d = [0..<length d]" by simp
  have "map (\<lambda>e. offset + snd e) d = map (\<lambda>i. offset + i) (map snd d)"
    by (simp add: comp_def)
  also have "\<dots> = [offset..<offset + length d]"
    unfolding d by (rule upt_shift)
  finally have h: "map (\<lambda>e. offset + snd e) d = [offset..<offset + length d]" .
  have "map snd (laid_out ((key1, d) # rest) offset) =
      [offset..<offset + length d] @ [offset + length d..<offset + length d + n]"
    using n h by (simp add: comp_def)
  also have "\<dots> = [offset..<offset + length d + n]"
    by (rule upt_add_eq_append[symmetric]) simp
  finally have "map snd (laid_out ((key1, d) # rest) offset) = [offset..<offset + (length d + n)]"
    by (simp add: add.assoc)
  then show ?case by blast
qed

lemma laid_out_distinct:
  assumes "distinct (map fst subkeys)"
    and "\<forall>key1 d. (key1, d) \<in> set subkeys \<longrightarrow> distinct (map fst d)"
  shows "distinct (map fst (laid_out subkeys offset))"
  using assms
proof (induction subkeys offset rule: laid_out.induct)
  case (1 offset)
  then show ?case by simp
next
  case (2 key1 d rest offset)
  from 2(3) have dd: "distinct (map fst d)" by simp
  have "inj_on (\<lambda>e. (key1, fst e)) (set d)"
    using dd by (auto simp: inj_on_def distinct_map)
  then have a: "distinct (map fst (map (\<lambda>e. ((key1, fst e), offset + snd e)) d))"
    using dd by (simp add: comp_def distinct_map)
  from 2(2,3) have r: "distinct (map fst rest)"
    "\<forall>key1 d. (key1, d) \<in> set rest \<longrightarrow> distinct (map fst d)" by simp_all
  from 2(1)[OF r] have b: "distinct (map fst (laid_out rest (offset + length d)))" .
  from 2(2) have "key1 \<notin> fst ` set rest" by simp
  then have "\<forall>k2. (key1, k2) \<notin> fst ` set (laid_out rest (offset + length d))"
    unfolding laid_out_keys by force
  then have c: "fst ` set (map (\<lambda>e. ((key1, fst e), offset + snd e)) d)
            \<inter> fst ` set (laid_out rest (offset + length d)) = {}"
    by force
  from a b c show ?case by (simp add: image_image comp_def)
qed

lemma build_key1_block_offsets_other:
  "k \<notin> fst ` set subkeys \<Longrightarrow>
     map_of (build_key1_block_offsets subkeys offset offsets) k = map_of offsets k"
  by (induction subkeys offset offsets rule: build_key1_block_offsets.induct)
     (auto simp: update_conv')

lemma map_of_row_same:
  "map_of d key2 = Some i \<Longrightarrow>
     map_of (map (\<lambda>e. ((key1, fst e), offset + snd e)) d) (key1, key2) = Some (offset + i)"
  by (induction d) (auto split: if_splits)

lemma map_of_row_other:
  "k \<noteq> key1 \<Longrightarrow> map_of (map (\<lambda>e. ((k, fst e), offset + snd e)) d) (key1, key2) = None"
  by (induction d) auto

lemma laid_out_lookup:
  assumes "distinct (map fst subkeys)" and "map_of subkeys key1 = Some d"
    and "map_of d key2 = Some i"
  shows "\<exists>b. map_of (build_key1_block_offsets subkeys offset offsets) key1 = Some b
           \<and> map_of (laid_out subkeys offset) (key1, key2) = Some (b + i)"
  using assms(1,2)
proof (induction subkeys arbitrary: offset offsets)
  case Nil
  then show ?case by simp
next
  case (Cons p rest)
  obtain k v where p: "p = (k, v)" by (cases p)
  show ?case
  proof (cases "k = key1")
    case True
    with Cons.prems p have v: "v = d" and notin: "key1 \<notin> fst ` set rest" by auto
    from build_key1_block_offsets_other[OF notin]
    have "map_of (build_key1_block_offsets rest (offset + length v) (AList.update k offset offsets)) key1
            = Some offset"
      using True by (simp add: update_conv')
    moreover have "map_of (laid_out (p # rest) offset) (key1, key2) = Some (offset + i)"
      using map_of_row_same[OF assms(3), of key1 offset] True v p
      by (simp add: map_add_def)
    ultimately show ?thesis using p by simp
  next
    case False
    with Cons.prems p have r: "distinct (map fst rest)" "map_of rest key1 = Some d" by auto
    from Cons.IH[OF r, of "offset + length v" "AList.update k offset offsets"]
    obtain b where
      b: "map_of (build_key1_block_offsets rest (offset + length v) (AList.update k offset offsets)) key1 = Some b"
         "map_of (laid_out rest (offset + length v)) (key1, key2) = Some (b + i)" by blast
    have "map_of (laid_out (p # rest) offset) (key1, key2) = Some (b + i)"
      using map_of_row_other[OF False, of offset v key2] b(2) p
      by (simp add: map_add_def)
    with b(1) p show ?thesis by simp
  qed
qed

lemma build_block_offsets_laid_out:
  assumes "distinct (map fst subkeys)"
    and "\<forall>k \<in> set ks. key_parts k \<in> pairs_of subkeys"
    and "distinct ks" and "set ks \<inter> fst ` set offs = {}"
  shows "build_block_offsets subkeys (build_key1_block_offsets subkeys 0 []) ks offs =
           Inr (offs @ map (\<lambda>k. (k, the (map_of (laid_out subkeys 0) (key_parts k)))) ks)"
  using assms(2,3,4)
proof (induction ks arbitrary: offs)
  case Nil
  then show ?case by simp
next
  case (Cons k ks)
  obtain key1 key2 where kp: "key_parts k = (key1, key2)" by (cases "key_parts k")
  from Cons.prems(1) kp obtain d where d: "map_of subkeys key1 = Some d" "key2 \<in> fst ` set d"
    by (auto simp: pairs_of_def)
  then obtain i where i: "map_of d key2 = Some i"
    by (cases "map_of d key2") (auto simp: map_of_eq_None_iff)
  from laid_out_lookup[OF assms(1) d(1) i, of 0 "[]"] obtain b where
    b: "map_of (build_key1_block_offsets subkeys 0 []) key1 = Some b"
       "map_of (laid_out subkeys 0) (key1, key2) = Some (b + i)" by blast
  from Cons.prems(3) have "map_of offs k = None" by (auto simp: map_of_eq_None_iff)
  then have u: "AList.update k (b + i) offs = offs @ [(k, b + i)]" by (rule update_absent)
  have "build_block_offsets subkeys (build_key1_block_offsets subkeys 0 []) ks (offs @ [(k, b + i)]) =
      Inr ((offs @ [(k, b + i)]) @ map (\<lambda>k. (k, the (map_of (laid_out subkeys 0) (key_parts k)))) ks)"
    using Cons.prems by (intro Cons.IH) auto
  with kp d(1) i b u show ?case by simp
qed

lemma laid_out_permutation:
  assumes g: "good_subkeys subkeys" and ps: "distinct ps" "set ps = pairs_of subkeys"
  shows "set (map (\<lambda>p. the (map_of (laid_out subkeys 0) p)) ps) = {0..<length ps}"
    and "distinct (map (\<lambda>p. the (map_of (laid_out subkeys 0) p)) ps)"
proof -
  let ?L = "laid_out subkeys 0"
  from g have dk: "distinct (map fst subkeys)" by (simp add: good_subkeys_def)
  have mem: "\<And>key1 d. (key1, d) \<in> set subkeys \<Longrightarrow> map_of subkeys key1 = Some d"
    using dk by simp
  from g mem have v: "\<forall>key1 d. (key1, d) \<in> set subkeys \<longrightarrow> map snd d = [0..<length d]"
    and dd: "\<forall>key1 d. (key1, d) \<in> set subkeys \<longrightarrow> distinct (map fst d)"
    by (auto simp: good_subkeys_def)
  from laid_out_values[OF v, of 0] obtain n where n: "map snd ?L = [0..<n]" by auto
  from laid_out_distinct[OF dk dd] have dL: "distinct (map fst ?L)" .
  from laid_out_pairs_of[OF dk] ps(2) have kL: "set (map fst ?L) = set ps" by simp
  from distinct_card[OF dL] have "card (set (map fst ?L)) = length ?L" by simp
  moreover from ps(1) have "card (set ps) = length ps" by (rule distinct_card)
  ultimately have len: "length ?L = length ps" using kL by simp
  from n have "length (map snd ?L) = n" by simp
  with len have nn: "n = length ps" by simp
  have "(\<lambda>p. the (map_of ?L p)) ` set ps = snd ` set ?L"
  proof
    show "(\<lambda>p. the (map_of ?L p)) ` set ps \<subseteq> snd ` set ?L"
    proof
      fix x assume "x \<in> (\<lambda>p. the (map_of ?L p)) ` set ps"
      then obtain p where p: "p \<in> set ps" "x = the (map_of ?L p)" by blast
      from p(1) kL have "p \<in> fst ` set ?L" by simp
      then obtain e where "e \<in> set ?L" "p = fst e" by blast
      then have "(p, snd e) \<in> set ?L" by simp
      then obtain y where "(p, y) \<in> set ?L" by blast
      with dL have "map_of ?L p = Some y" by simp
      with p \<open>(p, y) \<in> set ?L\<close> show "x \<in> snd ` set ?L" by force
    qed
    show "snd ` set ?L \<subseteq> (\<lambda>p. the (map_of ?L p)) ` set ps"
    proof
      fix x assume "x \<in> snd ` set ?L"
      then obtain p where e: "(p, x) \<in> set ?L" by force
      with dL have "map_of ?L p = Some x" by simp
      moreover from e have "p \<in> fst ` set ?L" by force
      with kL have "p \<in> set ps" by simp
      ultimately show "x \<in> (\<lambda>p. the (map_of ?L p)) ` set ps" by force
    qed
  qed
  also have "snd ` set ?L = set (map snd ?L)" by simp
  also have "\<dots> = {0..<n}" unfolding n by simp
  finally show s: "set (map (\<lambda>p. the (map_of ?L p)) ps) = {0..<length ps}"
    using nn by simp
  then have "card (set (map (\<lambda>p. the (map_of ?L p)) ps)) = length (map (\<lambda>p. the (map_of ?L p)) ps)"
    by simp
  then show "distinct (map (\<lambda>p. the (map_of ?L p)) ps)" by (rule card_distinct)
qed

section \<open>The catalog of the example files\<close>

lemma example_load:
  "load_skim_info example_dir ''taz'' [''skims1.omx'', ''skims2.omx''] (Some [''AM'', ''PM''])
     = Inr example_info"
  by (simp add: load_skim_info_def make_skim_info_def example_dir_def skims1_def skims2_def
      example_info_def Let_def)

section \<open>The element type of a catalog\<close>

text \<open>
  Claim C10. Every catalog \<open>load_skim_info\<close> returns has dtype float32, whatever
  element types the matrices of the files have; so \<open>allocate_skim_buffer\<close> with
  \<open>shared=True\<close> never takes the float64 branch nor raises for an unrecognized dtype:
  once the buffer size is computed, the result is the shared array of typecode \<open>f\<close>.
  (The only other outcome is the TypeError of \<open>reduce\<close> on the shape of a catalog
  built from no file, or from files of an empty shape, raised before the dtype is looked
  at.)
\<close>

theorem skim_dtype_float32:
  assumes "load_skim_info dir tag names stp = Inr info"
  shows "dtype info = Float32
    \<and> allocate_skim_buffer info True =
        (case multiply_large_numbers (omx_shape info) of
           Inl e \<Rightarrow> Inl e
         | Inr n \<Rightarrow> Inr (RawArray (CHR ''f'') (n * num_skims info)))"
proof -
  from load_skim_info_Inr[OF assms] obtain sh om where
    "make_skim_info tag names stp (sh, om, listed_matrices dir names) = Inr info" by blast
  from make_skim_info_fields(3)[OF this] have d: "dtype info = Float32" .
  then show ?thesis
    by (simp add: allocate_skim_buffer_def issubdtype_def Let_def split: sum.splits)
qed

text \<open>On the example the files hold float64 matrices; the buffer is still of typecode \<open>f\<close>.\<close>

theorem skim_dtype_float32_witness:
  "load_skim_info example_dir ''taz'' [''skims1.omx'', ''skims2.omx''] (Some [''AM'', ''PM''])
     = Inr example_info
   \<and> map snd (listMatrices skims1) = [Float64]
   \<and> dtype example_info = Float32
   \<and> allocate_skim_buffer example_info True = Inr (RawArray (CHR ''f'') 12)"
  using skim_dtype_float32[OF example_load]
  by (simp add: example_load skims1_def) (simp add: example_info_def)

section \<open>The zone system check of \<open>read_los_settings\<close>\<close>

lemma zone_system_outside_one_two_rejected:
  assumes "setting_network_los cfg = Some los"
    and "get_zone_system los \<noteq> Some 1" and "get_zone_system los \<noteq> Some 2"
  shows "read_los_settings cfg self = Inl (Unrecognized_zone_system (get_zone_system los))"
  using assms by (simp add: read_los_settings_def Let_def ONE_ZONE_def TWO_ZONE_def)

lemma two_zone_accepted:
  "new_Network_LOS (zone_config TWO_ZONE) = Inr example_los"
  by (simp add: new_Network_LOS_def read_los_settings_def zone_config_def Let_def
      ONE_ZONE_def TWO_ZONE_def THREE_ZONE_def REQUIRED_TWO_ZONE_TABLES_def example_load
      example_los_def)

text \<open>
  Claim C5. \<open>read_los_settings\<close> is to accept the zone systems 1, 2 and 3. The code
  asserts \<open>zone_system in [ONE_ZONE, TWO_ZONE]\<close> (line 382): constructing a
  \<open>Network_LOS\<close> from settings with \<open>zone_system = THREE_ZONE\<close> fails with
  "unrecognized zone_system", although line 396 and 410 of the same class go on to treat
  \<open>THREE_ZONE\<close> next to \<open>TWO_ZONE\<close>. The same settings with \<open>TWO_ZONE\<close> are
  accepted (\<open>two_zone_accepted\<close>).
\<close>

theorem three_zone_rejected:
  "new_Network_LOS (zone_config THREE_ZONE) = Inl (Unrecognized_zone_system (Some 3))"
  by (simp add: new_Network_LOS_def read_los_settings_def zone_config_def Let_def
      ONE_ZONE_def TWO_ZONE_def THREE_ZONE_def)

section \<open>Duplicate matrix names\<close>




section \<open>The offset mapping\<close>

text \<open>
  Claim C7. Over all the files of a tag at most one distinct mapping is allowed. When
  \<open>load_skim_info\<close> succeeds: if no file has a mapping, \<open>offset_map\<close> is absent;
  otherwise the first mapping met is the one adopted, its length is the first dimension
  of the shape, and every later mapping has the same entries. A later mapping with other
  entries makes the call fail. And mappings that all repeat a first one of the right
  length are accepted: with all files there, one shape and distinct names, the call
  succeeds.
\<close>

theorem offset_map_single_mapping:
  "(\<forall>info. load_skim_info dir tag names stp = Inr info \<longrightarrow>
      (case listed_mappings dir names of
         [] \<Rightarrow> offset_map info = None \<and> offset_map_name info = None
       | p # rest \<Rightarrow>
           offset_map info = Some (snd p) \<and> offset_map_name info = Some (fst p)
           \<and> (\<exists>rows dims. omx_shape info = Some (rows # dims) \<and> length (snd p) = rows)
           \<and> (\<forall>q \<in> set rest. snd q = snd p)))
   \<and> ((\<exists>p rest q. listed_mappings dir names = p # rest \<and> q \<in> set rest \<and> snd q \<noteq> snd p)
        \<longrightarrow> (\<exists>e. load_skim_info dir tag names stp = Inl e))
   \<and> ((\<forall>n \<in> set names. dir n \<noteq> None)
       \<and> distinct (map fst (listed_matrices dir names))
       \<and> (\<exists>rows dims. (\<forall>s \<in> set (listed_shapes dir names). s = rows # dims)
             \<and> (case listed_mappings dir names of
                   [] \<Rightarrow> True
                 | p # rest \<Rightarrow> length (snd p) = rows \<and> (\<forall>q \<in> set rest. snd q = snd p)))
        \<longrightarrow> (\<exists>info. load_skim_info dir tag names stp = Inr info))"
proof (intro conjI impI allI)
  fix info assume "load_skim_info dir tag names stp = Inr info"
  then show "case listed_mappings dir names of
         [] \<Rightarrow> offset_map info = None \<and> offset_map_name info = None
       | p # rest \<Rightarrow>
           offset_map info = Some (snd p) \<and> offset_map_name info = Some (fst p)
           \<and> (\<exists>rows dims. omx_shape info = Some (rows # dims) \<and> length (snd p) = rows)
           \<and> (\<forall>q \<in> set rest. snd q = snd p)"
    by (rule load_skim_info_offset_map)
next
  assume "\<exists>p rest q. listed_mappings dir names = p # rest \<and> q \<in> set rest \<and> snd q \<noteq> snd p"
  then obtain p rest q where
    d: "listed_mappings dir names = p # rest" "q \<in> set rest" "snd q \<noteq> snd p" by blast
  show "\<exists>e. load_skim_info dir tag names stp = Inl e"
  proof (cases "load_skim_info dir tag names stp")
    case (Inl e)
    then show ?thesis by blast
  next
    case (Inr info)
    from load_skim_info_offset_map[OF this] d show ?thesis by simp
  qed
next
  assume a: "(\<forall>n \<in> set names. dir n \<noteq> None)
       \<and> distinct (map fst (listed_matrices dir names))
       \<and> (\<exists>rows dims. (\<forall>s \<in> set (listed_shapes dir names). s = rows # dims)
             \<and> (case listed_mappings dir names of
                   [] \<Rightarrow> True
                 | p # rest \<Rightarrow> length (snd p) = rows \<and> (\<forall>q \<in> set rest. snd q = snd p)))"
  then obtain rows dims where
    sh: "\<forall>s \<in> set (listed_shapes dir names). s = rows # dims" and
    mp: "case listed_mappings dir names of
                   [] \<Rightarrow> True
                 | p # rest \<Rightarrow> length (snd p) = rows \<and> (\<forall>q \<in> set rest. snd q = snd p)"
    by blast
  from mp have "\<exists>om. scan_mappings (rows # dims) (listed_mappings dir names) None = Inr om"
    unfolding scan_mappings_None by (auto split: list.splits)
  then obtain om where "scan_mappings (rows # dims) (listed_mappings dir names) None = Inr om"
    by blast
  from load_skim_info_ok[OF _ sh _ this] a
  show "\<exists>info. load_skim_info dir tag names stp = Inr info" by blast
qed

text \<open>
  On the example, both files carry the same mapping, which is adopted; \<open>skims3.omx\<close>
  alone has none, and the catalog has no \<open>offset_map\<close>.
\<close>

theorem offset_map_single_mapping_witness:
  "load_skim_info example_dir ''taz'' [''skims1.omx'', ''skims2.omx''] (Some [''AM'', ''PM''])
       = Inr example_info
   \<and> listed_mappings example_dir [''skims1.omx'', ''skims2.omx'']
       = [(''zone_number'', [1, 2]), (''zone_number'', [1, 2])]
   \<and> offset_map example_info = Some [1, 2]
   \<and> omx_shape example_info = Some [2, 2]
   \<and> (\<exists>info. load_skim_info example_dir ''taz'' [''skims3.omx''] None = Inr info
         \<and> offset_map info = None)"
proof -
  have l3: "listed_mappings example_dir [''skims3.omx''] = []"
    by (simp add: example_dir_def skims3_def)
  have "\<exists>info. load_skim_info example_dir ''taz'' [''skims3.omx''] None = Inr info"
    using offset_map_single_mapping[of example_dir "''taz''" "[''skims3.omx'']" None]
    by (simp add: l3) (simp add: example_dir_def skims3_def)
  then obtain info where i: "load_skim_info example_dir ''taz'' [''skims3.omx''] None = Inr info"
    by blast
  with offset_map_single_mapping[of example_dir "''taz''" "[''skims3.omx'']" None] l3
  have "offset_map info = None" by simp
  with i have "\<exists>info. load_skim_info example_dir ''taz'' [''skims3.omx''] None = Inr info
         \<and> offset_map info = None" by blast
  moreover have "listed_mappings example_dir [''skims1.omx'', ''skims2.omx'']
       = [(''zone_number'', [1, 2]), (''zone_number'', [1, 2])]"
    by (simp add: example_dir_def skims1_def skims2_def)
  moreover have "offset_map example_info = Some [1, 2]" "omx_shape example_info = Some [2, 2]"
    using offset_map_single_mapping[of example_dir "''taz''" "[''skims1.omx'', ''skims2.omx'']"
        "Some [''AM'', ''PM'']"]
    by (simp_all add: example_info_def)
  ultimately show ?thesis using example_load by simp
qed

section \<open>Which matrices are retained\<close>

text \<open>
  Claim C4, as the claim states it, fails when the configured list of labels is empty:
  line 256 tests \<open>tags_to_load\<close> for truth, an empty list is false, and nothing is
  left out. \<open>TIME__AM\<close> has the period \<open>AM\<close>, which is not among no labels, and is
  retained.
\<close>

theorem retained_counterexample:
  "load_skim_info example_dir ''taz'' [''skims1.omx'', ''skims2.omx''] (Some []) = Inr example_info
   \<and> map snd (omx_keys example_info) = [''DIST'', ''TIME__AM'', ''TIME__PM'']
   \<and> str_partition ''__'' ''TIME__AM'' = (''TIME'', ''__'', ''AM'')
   \<and> \<not> retained [] ''TIME__AM''"
  by (simp add: load_skim_info_def make_skim_info_def example_dir_def skims1_def skims2_def
      example_info_def Let_def retained_def)

text \<open>
  Claim C4, amended. With a non-empty list of labels configured, the retained matrix
  names are those of the manifest, in its order, that have no separator \<open>__\<close> or whose
  part after the first separator is one of the labels; with no setting, or an empty list
  of labels, every name of the manifest is retained. \<open>num_skims\<close> counts the retained
  keys. In particular two files that list \<open>DIST\<close>, \<open>TIME__AM\<close> and \<open>TIME__PM\<close>,
  loaded with the labels \<open>AM\<close> and \<open>PM\<close>, give the offsets 0, 1 and 2 and three skims.
\<close>

theorem retained_matrix_names:
  "(\<forall>info. load_skim_info dir tag names stp = Inr info \<longrightarrow>
      (\<forall>labels. stp = Some labels \<and> labels \<noteq> [] \<longrightarrow>
         map snd (omx_keys info) = filter (retained labels) (map fst (omx_manifest info)))
      \<and> (stp = None \<or> stp = Some [] \<longrightarrow>
           map snd (omx_keys info) = map fst (omx_manifest info))
      \<and> num_skims info = length (omx_keys info))
   \<and> load_skim_info example_dir ''taz'' [''skims1.omx'', ''skims2.omx''] (Some [''AM'', ''PM''])
       = Inr example_info
   \<and> map fst (omx_manifest example_info) = [''DIST'', ''TIME__AM'', ''TIME__PM'']
   \<and> block_offsets example_info
       = [(Key ''DIST'', 0), (Key2 ''TIME'' ''AM'', 1), (Key2 ''TIME'' ''PM'', 2)]
   \<and> num_skims example_info = 3"
proof (intro conjI allI impI)
  fix info labels
  assume l: "load_skim_info dir tag names stp = Inr info" and "stp = Some labels \<and> labels \<noteq> []"
  with load_skim_info_omx_keys(1)[OF l]
  show "map snd (omx_keys info) = filter (retained labels) (map fst (omx_manifest info))"
    by (simp add: comp_def)
next
  fix info
  assume l: "load_skim_info dir tag names stp = Inr info" and "stp = None \<or> stp = Some []"
  then have "tags_to_load stp = []" by auto
  with load_skim_info_omx_keys(1)[OF l]
  show "map snd (omx_keys info) = map fst (omx_manifest info)"
    by (simp add: comp_def)
next
  fix info
  assume "load_skim_info dir tag names stp = Inr info"
  then show "num_skims info = length (omx_keys info)" by (rule load_skim_info_omx_keys(2))
qed (simp_all add: example_load, simp_all add: example_info_def)

text \<open>With the label \<open>AM\<close> alone \<open>TIME__PM\<close> is left out; with no setting nothing is.\<close>

theorem retained_matrix_names_witness:
  "load_skim_info example_dir ''taz'' [''skims1.omx'', ''skims2.omx''] (Some [''AM''])
     = Inr (example_info\<lparr> num_skims := 2,
              omx_keys := [(Key ''DIST'', ''DIST''), (Key2 ''TIME'' ''AM'', ''TIME__AM'')],
              block_offsets := [(Key ''DIST'', 0), (Key2 ''TIME'' ''AM'', 1)] \<rparr>)
   \<and> filter (retained [''AM'']) [''DIST'', ''TIME__AM'', ''TIME__PM''] = [''DIST'', ''TIME__AM'']
   \<and> load_skim_info example_dir ''taz'' [''skims1.omx'', ''skims2.omx''] None = Inr example_info
   \<and> map snd (omx_keys example_info) = [''DIST'', ''TIME__AM'', ''TIME__PM'']"
  using retained_matrix_names[of example_dir "''taz''" "[''skims1.omx'', ''skims2.omx'']"
      "Some [''AM'']"]
    retained_matrix_names[of example_dir "''taz''" "[''skims1.omx'', ''skims2.omx'']" None]
  by (simp add: load_skim_info_def make_skim_info_def example_dir_def skims1_def skims2_def
      example_info_def Let_def retained_def)

section \<open>The block offsets\<close>

lemma make_skim_info_block_offsets:
  assumes "make_skim_info tag names stp st = Inr info"
  shows "build_block_offsets (build_key1_subkeys (map fst (omx_keys info)) [])
           (build_key1_block_offsets (build_key1_subkeys (map fst (omx_keys info)) []) 0 [])
           (map fst (omx_keys info)) [] = Inr (block_offsets info)"
  using assms
  by (cases st) (auto simp: make_skim_info_def Let_def split: sum.splits)

lemma load_skim_info_keys_distinct:
  assumes "load_skim_info dir tag names stp = Inr info"
  shows "distinct (map fst (omx_keys info))"
proof -
  from load_skim_info_distinct[OF assms] load_skim_info_manifest[OF assms]
  have "distinct (map fst (omx_manifest info))" by simp
  then have "distinct (filter (\<lambda>n. tags_to_load stp = [] \<or> retained (tags_to_load stp) n)
              (map fst (omx_manifest info)))" by (rule distinct_filter)
  then show ?thesis
    unfolding load_skim_info_omx_keys(1)[OF assms]
    by (simp add: comp_def distinct_map inj_on_def skim_key_of_inj)
qed

text \<open>
  While no two retained keys have the same parts \<open>(key1, key2)\<close>, that is, no plain
  key \<open>X\<close> is retained together with the pair \<open>(X, X)\<close>, the offsets are dense: the
  keys of \<open>block_offsets\<close> are the retained keys in their order, and their offsets
  are the numbers below \<open>num_skims\<close>, each once.
\<close>

lemma block_offsets_dense:
  assumes "load_skim_info dir tag names stp = Inr info"
    and "inj_on key_parts (fst ` set (omx_keys info))"
  shows "map fst (block_offsets info) = map fst (omx_keys info)"
    and "distinct (map snd (block_offsets info))"
    and "set (map snd (block_offsets info)) = {0..<num_skims info}"
proof -
  let ?ks = "map fst (omx_keys info)"
  let ?sub = "build_key1_subkeys ?ks []"
  from load_skim_info_Inr[OF assms(1)] obtain sh om where
    mk: "make_skim_info tag names stp (sh, om, listed_matrices dir names) = Inr info" by blast
  from load_skim_info_keys_distinct[OF assms(1)] have dks: "distinct ?ks" .
  have "distinct (map key_parts ?ks) = (distinct ?ks \<and> inj_on key_parts (set ?ks))"
    by (rule distinct_map)
  with dks assms(2) have dps: "distinct (map key_parts ?ks)" by simp
  have g0: "good_subkeys []" by (simp add: good_subkeys_def)
  have p0: "set (map key_parts ?ks) \<inter> pairs_of [] = {}" by (simp add: pairs_of_def)
  from build_key1_subkeys_good[OF g0 dps p0] have
    g: "good_subkeys ?sub" and ps: "pairs_of ?sub = set (map key_parts ?ks)"
    by (simp_all add: pairs_of_def)
  from g have dk: "distinct (map fst ?sub)" by (simp add: good_subkeys_def)
  from ps have inp: "\<forall>k \<in> set ?ks. key_parts k \<in> pairs_of ?sub" by simp
  from build_block_offsets_laid_out[OF dk inp dks, of "[]"] make_skim_info_block_offsets[OF mk]
  have bo: "block_offsets info = map (\<lambda>k. (k, the (map_of (laid_out ?sub 0) (key_parts k)))) ?ks"
    by simp
  then show "map fst (block_offsets info) = map fst (omx_keys info)" by (simp add: comp_def)
  from bo have vs: "map snd (block_offsets info) =
      map (\<lambda>p. the (map_of (laid_out ?sub 0) p)) (map key_parts ?ks)" by (simp add: comp_def)
  from laid_out_permutation[OF g dps ps[symmetric]] vs make_skim_info_fields(7)[OF mk]
  show "distinct (map snd (block_offsets info))"
    and "set (map snd (block_offsets info)) = {0..<num_skims info}" by simp_all
qed

text \<open>
  Claim C1. The offsets are to be the numbers from 0 to \<open>num_skims - 1\<close>, each once.
  Line 272 files a plain key \<open>DIST\<close> under \<open>key1 = key2 = DIST\<close>, the place of the
  pair \<open>(DIST, DIST)\<close> of the matrix \<open>DIST__DIST\<close>: the second overwrites the
  sub-offset of the first in \<open>key1_subkeys\<close>, whose entry counts one subkey. Both skims
  get the offset 1 and no skim the offset 0, with \<open>num_skims = 2\<close>. Without such
  a pair of names the claim holds (\<open>block_offsets_dense\<close>).
\<close>

theorem block_offsets_clash:
  "load_skim_info clash_dir ''taz'' [''skims.omx''] None = Inr clash_info
   \<and> num_skims clash_info = 2
   \<and> map snd (block_offsets clash_info) = [1, 1]"
  by (simp add: load_skim_info_def make_skim_info_def clash_dir_def clash_info_def Let_def)

section \<open>The skim cache: \<open>write_skim_cache\<close> and \<open>read_skim_cache\<close>\<close>

lemma skim_cache_path_files [simp]:
  "skim_cache_path (env\<lparr>files := f\<rparr>) info = skim_cache_path env info"
  by (simp add: skim_cache_path_def default_skim_cache_dir_def split: option.splits)

text \<open>
  Claim C3. For every \<open>skim_info\<close> and every array \<open>skim_data\<close> of its element type
  (holding as many bytes as its shape says), \<open>write_skim_cache\<close> succeeds, and
  \<open>read_skim_cache\<close> into any array of the same shape and element type then succeeds
  and leaves it with exactly the bytes of \<open>skim_data\<close>. For an array of no elements
  this needs a numpy that can map no bytes.
\<close>

theorem skim_cache_round_trip:
  assumes "nd_dtype skim_data = dtype info"
    and "length (nd_bytes skim_data) = nbytes (nd_shape skim_data) (dtype info)"
    and "nd_dtype buf = dtype info" and "nd_shape buf = nd_shape skim_data"
    and "0 < length (nd_bytes skim_data) \<or> mmap_empty env"
  shows "\<exists>env'. write_skim_cache env info skim_data = Inr env'
           \<and> read_skim_cache env' info buf = Inr (buf\<lparr>nd_bytes := nd_bytes skim_data\<rparr>)"
proof -
  let ?env' = "env\<lparr>files := (files env)(skim_cache_path env info \<mapsto> nd_bytes skim_data)\<rparr>"
  from assms(1,2,5) have w: "write_skim_cache env info skim_data = Inr ?env'"
    by (auto simp: write_skim_cache_def assign_def Let_def)
  from assms have "read_skim_cache ?env' info buf = Inr (buf\<lparr>nd_bytes := nd_bytes skim_data\<rparr>)"
    by (auto simp: read_skim_cache_def assign_def Let_def)
  with w show ?thesis by blast
qed

lemma example_cache_path: "skim_cache_path example_env example_info = ''output/cached_taz.mmap''"
  by (simp add: skim_cache_path_def example_env_def example_info_def path_join_def
      build_skim_cache_file_name_def default_skim_cache_dir_def)

theorem skim_cache_round_trip_witness:
  "write_skim_cache example_env example_info ones =
     Inr (example_env\<lparr>files := [''output/cached_taz.mmap'' \<mapsto> nd_bytes ones]\<rparr>)
   \<and> read_skim_cache (example_env\<lparr>files := [''output/cached_taz.mmap'' \<mapsto> nd_bytes ones]\<rparr>)
        example_info zeros = Inr ones"
proof -
  have len: "length (nd_bytes ones) = 48"
    by (simp add: ones_def length_concat sum_list_replicate)
  have h: "nd_dtype ones = dtype example_info"
    "length (nd_bytes ones) = nbytes (nd_shape ones) (dtype example_info)"
    "nd_dtype zeros = dtype example_info" "nd_shape zeros = nd_shape ones"
    "0 < length (nd_bytes ones) \<or> mmap_empty example_env"
    by (simp_all add: len) (simp_all add: ones_def zeros_def example_info_def nbytes_def)
  have w: "write_skim_cache example_env example_info ones =
     Inr (example_env\<lparr>files := [''output/cached_taz.mmap'' \<mapsto> nd_bytes ones]\<rparr>)"
    using h(1,2,5)
    by (simp add: write_skim_cache_def example_cache_path assign_def Let_def)
       (simp add: example_env_def)
  have z: "zeros\<lparr>nd_bytes := nd_bytes ones\<rparr> = ones"
    by (simp add: zeros_def ones_def)
  from skim_cache_round_trip[OF h] w z show ?thesis by auto
qed

section \<open>The attributes of a \<open>Network_LOS\<close> object\<close>

lemma tables_never_assigned: "''tables'' \<notin> set (assigned m)"
  by (cases m) (simp_all add: assigned_by_read_los_settings_def)

lemma setattrs_other:
  "name \<notin> fst ` set writes \<Longrightarrow> setattrs writes d name = d name"
  by (induction writes arbitrary: d) auto

lemma call_tables: "call m writes d ''tables'' = d ''tables''"
  unfolding call_def using tables_never_assigned[of m]
  by (intro setattrs_other) auto

lemma calls_tables: "calls cs d ''tables'' = d ''tables''"
  by (induction cs arbitrary: d) (auto simp: call_tables)

text \<open>
  Claim C9. No method of \<open>Network_LOS\<close> assigns \<open>self.tables\<close>. So on an object
  that only the constructor and the methods of the class have written to, after any
  calls at all, \<open>get_table\<close> raises the AttributeError of \<open>self.tables\<close> for every
  table name, and never returns a table.
\<close>

theorem get_table_always_raises:
  "get_table dict_get (calls cs Map.empty) table_name = Inl (AttributeError ''tables'')"
  by (simp add: get_table_def calls_tables class_namespace_def)

section \<open>Looking up zone pairs\<close>














lemma load_skim_infos_tables:
  "load_skim_infos cfg xs self = Inr self' \<Longrightarrow> maz_to_maz_df self' = maz_to_maz_df self"
proof (induction xs arbitrary: self)
  case Nil
  then show ?case by simp
next
  case (Cons x xs)
  obtain tag names where x: "x = (tag, names)" by (cases x)
  from Cons.prems x obtain info where
    "load_skim_infos cfg xs (self\<lparr>skim_info := AList.update tag info (skim_info self)\<rparr>) = Inr self'"
    by (auto split: option.splits sum.splits)
  from Cons.IH[OF this] show ?case by simp
qed

lemma new_Network_LOS_fresh:
  assumes "new_Network_LOS cfg = Inr self"
  shows "maz_to_maz_df self = None"
proof -
  from assms obtain los skim_file_names self1 self2 where
    "load_skim_infos cfg skim_file_names self1 = Inr self2"
    and "maz_to_maz_df self1 = None" and "maz_to_maz_df self = maz_to_maz_df self2"
    unfolding new_Network_LOS_def read_los_settings_def Let_def
    by (auto split: option.splits sum.splits if_splits)
  with load_skim_infos_tables show ?thesis by metis
qed

text \<open>What a lookup reads there.\<close>

lemma pair_label_nth:
  "k < length ods \<Longrightarrow>
     map2 (\<lambda>om dm. number_add (number_mul om cardinality) dm) (map fst ods) (map snd ods) ! k
       = pair_label cardinality (ods ! k)"
  by (simp add: pair_label_def case_prod_beta)










text \<open>
  With two files: the column \<open>i\<close> of the first file is not in the table, \<open>attr\<close> is
  looked up in its one column, and \<open>dist\<close> in the columns of both files, the second of
  which has no row for the pair \<open>(0, 1)\<close>.
\<close>

lemma pairs_load_all_tables:
  "\<exists>self. load_all_tables pairs_config pairs_los = Inr self
     \<and> maz_to_maz_cardinality self = Some (I64 3)
     \<and> map fst (frame_columns (maz_to_maz_df self)) = [''attr'', ''dist'', ''dist'']
     \<and> get_mazpairs self [1, 0] [2, 1] ''attr'' = Inr (Array_1d [Some 20, Some 10])
     \<and> get_mazpairs self [1, 0] [2, 1] ''dist'' = Inr (Array_2d [[Some 2, Some 5], [Some 1, None]])
     \<and> get_mazpairs self [1, 0] [2, 1] ''i'' = Inl (Column_not_found ''i'')"
  by (simp add: load_all_tables_def pairs_config_def pairs_los_def zone_config_def example_los_def
      TWO_ZONE_def THREE_ZONE_def smax_def word_sle_eq index_maz_to_maz_def
      synthetic_index_def concat_columns_def Let_def
      get_mazpairs_def broadcast2_def quick_loc_df_def)

text \<open>
  With no row in \<open>maz_to_taz\<close> the cardinality and the label of the one row are NaN, and
  the lookup finds the row.
\<close>

lemma empty_taz_load_all_tables:
  "\<exists>self. load_all_tables empty_taz_config example_los = Inr self
     \<and> maz_to_maz_cardinality self = Some NaN
     \<and> frame_index (maz_to_maz_df self) = [NaN]
     \<and> get_mazpairs self [1] [2] ''attr'' = Inr (Array_1d [Some 20])"
  by (simp add: load_all_tables_def empty_taz_config_def zone_config_def example_los_def
      TWO_ZONE_def THREE_ZONE_def index_maz_to_maz_def
      synthetic_index_def Let_def
      get_mazpairs_def broadcast2_def quick_loc_df_def)

end
